theory Spec2Isabelle
  imports Main "HOL-Library.Multiset" "HOL-Library.Sublist"
begin

section \<open>JavaScript values and exceptions\<close>

text \<open>
  The search filter of \<^verbatim>\<open>packages/app/lib/apps/search/Search.js\<close> runs over issue and
  pull request records, which are JSON-like JavaScript values. A record is not typed by
  the code: a field may be missing, \<^verbatim>\<open>null\<close> or of another shape, and the matchers
  then throw. The model keeps the values untyped for that reason.

  Numbers are integers (issue numbers, lengths), printed in decimal as JavaScript prints
  the integers below \<open>10\<^sup>2\<^sup>1\<close>. Strings are lists of characters, a character being
  a UTF-16 code unit below 256 (ASCII and the Latin-1 supplement): on these,
  \<open>of_char\<close> is the code unit and \<open>toLowerCase\<close> below is JavaScript's.
\<close>

datatype error = TypeError | RangeError

type_synonym 'a result = "error + 'a"

datatype jsval =
    JUndefined
  | JNull
  | JBool bool
  | JNum int
  | JStr string
  | JArr "jsval list"
  | JObj "(string \<times> jsval) list"

definition bnd :: "'a result \<Rightarrow> ('a \<Rightarrow> 'b result) \<Rightarrow> 'b result" where
  \<comment> \<open>Sequencing: an exception of the first computation skips the rest.\<close>
  "bnd r f = (case r of Inl e \<Rightarrow> Inl e | Inr v \<Rightarrow> f v)"

fun truthy :: "jsval \<Rightarrow> bool" where
  \<comment> \<open>ToBoolean.\<close>
  "truthy JUndefined = False"
| "truthy JNull = False"
| "truthy (JBool b) = b"
| "truthy (JNum n) = (n \<noteq> 0)"
| "truthy (JStr s) = (s \<noteq> [])"
| "truthy (JArr xs) = True"
| "truthy (JObj ps) = True"

fun get_prop :: "jsval \<Rightarrow> string \<Rightarrow> jsval result" where
  \<comment> \<open>The property read \<^verbatim>\<open>v.k\<close>, for the property names the matchers read (none of
      them is inherited from a prototype). Reading a property of \<^verbatim>\<open>undefined\<close> or
      \<^verbatim>\<open>null\<close> throws a TypeError; a missing property is \<^verbatim>\<open>undefined\<close>.\<close>
  "get_prop JUndefined k = Inl TypeError"
| "get_prop JNull k = Inl TypeError"
| "get_prop (JObj ps) k = Inr (case map_of ps k of Some v \<Rightarrow> v | None \<Rightarrow> JUndefined)"
| "get_prop (JArr xs) k = Inr (if k = ''length'' then JNum (int (length xs)) else JUndefined)"
| "get_prop (JStr s) k = Inr (if k = ''length'' then JNum (int (length s)) else JUndefined)"
| "get_prop (JBool b) k = Inr JUndefined"
| "get_prop (JNum n) k = Inr JUndefined"

fun show_nat :: "nat \<Rightarrow> string" where
  "show_nat n =
     (if n < 10 then [''0123456789'' ! n]
      else show_nat (n div 10) @ [''0123456789'' ! (n mod 10)])"

definition show_int :: "int \<Rightarrow> string" where
  "show_int i = (if i < 0 then CHR ''-'' # show_nat (nat (- i)) else show_nat (nat i))"

fun join_results :: "string result list \<Rightarrow> string result" where
  \<comment> \<open>\<^verbatim>\<open>Array.prototype.join\<close> with the separator \<^verbatim>\<open>,\<close> over the elements' strings.\<close>
  "join_results [] = Inr []"
| "join_results [r] = r"
| "join_results (r # rs) =
     bnd r (\<lambda>s. bnd (join_results rs) (\<lambda>t. Inr (s @ '','' @ t)))"

fun to_string :: "jsval \<Rightarrow> string result" where
  \<comment> \<open>ToString, as a template literal and a computed property key apply it. An array is
      joined with commas (\<^verbatim>\<open>undefined\<close> and \<^verbatim>\<open>null\<close> elements give the empty string);
      a plain object is \<^verbatim>\<open>[object Object]\<close>, unless an own data property shadows
      \<^verbatim>\<open>toString\<close>: then no conversion method is left and a TypeError is thrown.\<close>
  "to_string JUndefined = Inr ''undefined''"
| "to_string JNull = Inr ''null''"
| "to_string (JBool b) = Inr (if b then ''true'' else ''false'')"
| "to_string (JNum n) = Inr (show_int n)"
| "to_string (JStr s) = Inr s"
| "to_string (JArr xs) =
     join_results (map (\<lambda>x. if x = JUndefined \<or> x = JNull then Inr [] else to_string x) xs)"
| "to_string (JObj ps) =
     (if ''toString'' \<in> set (map fst ps) then Inl TypeError else Inr ''[object Object]'')"

definition toLowerCase_char :: "char \<Rightarrow> char" where
  \<comment> \<open>The capital letters below 256 are \<^verbatim>\<open>A\<close> to \<^verbatim>\<open>Z\<close> (65 to 90) and U+00C0 to U+00DE
      but the sign U+00D7; the small letter is 32 above, which is bit 5 set.\<close>
  "toLowerCase_char c =
     (let n = of_char c :: nat
      in if 65 \<le> n \<and> n \<le> 90 \<or> 192 \<le> n \<and> n \<le> 222 \<and> n \<noteq> 215
         then (case c of Char b0 b1 b2 b3 b4 b5 b6 b7 \<Rightarrow> Char b0 b1 b2 b3 b4 True b6 b7)
         else c)"

definition toLowerCase :: "string \<Rightarrow> string" where
  "toLowerCase s = map toLowerCase_char s"

fun startsWith :: "string \<Rightarrow> string \<Rightarrow> bool" where
  \<comment> \<open>\<^verbatim>\<open>s.startsWith(p)\<close>\<close>
  "startsWith s [] = True"
| "startsWith [] (p # ps) = False"
| "startsWith (c # s) (p # ps) = (c = p \<and> startsWith s ps)"

fun str_includes :: "string \<Rightarrow> string \<Rightarrow> bool" where
  \<comment> \<open>\<^verbatim>\<open>s.includes(p)\<close>\<close>
  "str_includes [] p = (p = [])"
| "str_includes (c # s) p = (startsWith (c # s) p \<or> str_includes s p)"

fun str_less :: "string \<Rightarrow> string \<Rightarrow> bool" where
  \<comment> \<open>\<^verbatim>\<open>a < b\<close> on two strings: lexicographic on the code units.\<close>
  "str_less [] [] = False"
| "str_less [] (y # ys) = True"
| "str_less (x # xs) [] = False"
| "str_less (x # xs) (y # ys) =
     (if x = y then str_less xs ys else (of_char x :: nat) < of_char y)"


definition toLowerCase_method :: "jsval \<Rightarrow> string result" where
  \<comment> \<open>The call \<^verbatim>\<open>v.toLowerCase()\<close>: only a string has the method.\<close>
  "toLowerCase_method v = (case v of JStr s \<Rightarrow> Inr (toLowerCase s) | _ \<Rightarrow> Inl TypeError)"

fun some_list :: "(jsval \<Rightarrow> bool result) \<Rightarrow> jsval list \<Rightarrow> bool result" where
  "some_list f [] = Inr False"
| "some_list f (x # xs) = bnd (f x) (\<lambda>b. if b then Inr True else some_list f xs)"

definition some_method :: "jsval \<Rightarrow> (jsval \<Rightarrow> bool result) \<Rightarrow> bool result" where
  \<comment> \<open>The call \<^verbatim>\<open>v.some(f)\<close>: only an array has the method.\<close>
  "some_method v f = (case v of JArr xs \<Rightarrow> some_list f xs | _ \<Rightarrow> Inl TypeError)"

definition or_empty :: "jsval \<Rightarrow> jsval" where
  \<comment> \<open>\<^verbatim>\<open>(v || [])\<close>\<close>
  "or_empty v = (if truthy v then v else JArr [])"

definition object_prototype_names :: "string list" where
  \<comment> \<open>The properties every plain object inherits from \<^verbatim>\<open>Object.prototype\<close>.\<close>
  "object_prototype_names =
     [''constructor'', ''__defineGetter__'', ''__defineSetter__'', ''hasOwnProperty'',
      ''__lookupGetter__'', ''__lookupSetter__'', ''isPrototypeOf'',
      ''propertyIsEnumerable'', ''toString'', ''valueOf'', ''__proto__'',
      ''toLocaleString'']"

definition has_truthy_property :: "string list \<Rightarrow> string \<Rightarrow> bool" where
  \<comment> \<open>ToBoolean of \<^verbatim>\<open>obj[k]\<close> for a plain object \<^verbatim>\<open>obj\<close> whose own properties
      \<open>own\<close> all hold \<^verbatim>\<open>true\<close>: an own property, or one inherited from
      \<^verbatim>\<open>Object.prototype\<close> (a function or an object, so truthy).\<close>
  "has_truthy_property own k = (k \<in> set own \<or> k \<in> set object_prototype_names)"

section \<open>Collaborators\<close>

text \<open>
  \<^verbatim>\<open>Search(logger, store)\<close> uses a store, a logger and the helpers of \<^verbatim>\<open>../../util\<close>
  and \<^verbatim>\<open>../../links\<close>, none of which is part of the search module. They are
  parameters of the model.
\<close>

record link =
  link_type :: string
  target_key :: string

record temporal =
  date :: int
  tqualifier :: "string option"

record env =
  getIssueByKey :: "string \<Rightarrow> jsval option"
  getIssueLinks :: "jsval \<Rightarrow> link list"
  parseTemporalFilter :: "string \<Rightarrow> temporal option"
  toISOString :: "int \<Rightarrow> string result"
  issueIdent :: "jsval \<Rightarrow> string"
  CHILD_OF :: string
  CLOSES :: string

text \<open>
  \<^descr>[\<open>getIssueByKey\<close>, \<open>getIssueLinks\<close>] Modelled from the spec: the record store
  (\<^verbatim>\<open>../../store\<close>) is missing. It exposes ``lookup-by-key(key) \<rightarrow> Record|absent;
  get-links(record) \<rightarrow> ordered sequence of {type, target-key}''; \<open>target_key l\<close> is
  \<^verbatim>\<open>link.target.key\<close>.
  \<^descr>[\<open>parseTemporalFilter\<close>] Modelled from the spec: the parser (\<^verbatim>\<open>../../util\<close>) is
  missing. It yields ``{date: timestamp, qualifier: one of >, >=, <, <=}'' or no filter
  for an invalid string; \<open>tqualifier\<close> is the field \<^verbatim>\<open>qualifier\<close>, \<open>None\<close> when the
  string has no comparator.
  \<^descr>[\<open>toISOString\<close>] \<^verbatim>\<open>new Date(date).toISOString()\<close>, which throws a RangeError for an
  invalid date. Its result has the form \<^verbatim>\<open>YYYY-MM-DDTHH:mm:ss.sssZ\<close>, so it is never a
  numeric literal.
  \<^descr>[\<open>issueIdent\<close>] Modelled from the spec: the helper (\<^verbatim>\<open>../../util\<close>) is missing. It
  gives the record identifier the diagnostic sink receives; the sink ``must not affect
  control flow'', so neither it nor \<^verbatim>\<open>log.warn\<close> throws.
  \<^descr>[\<open>CHILD_OF\<close>, \<open>CLOSES\<close>] The constants \<^verbatim>\<open>LinkTypes.CHILD_OF\<close> and
  \<^verbatim>\<open>LinkTypes.CLOSES\<close> of \<^verbatim>\<open>../../links\<close>.
\<close>

section \<open>Matchers\<close>

text \<open>
  A matcher is a function of the record. What it returns is only ever read through
  ToBoolean (by \<^verbatim>\<open>!\<close>, \<^verbatim>\<open>||\<close> and \<^verbatim>\<open>Array.prototype.every\<close>), so the model returns
  that truth value, or the exception thrown.
\<close>

type_synonym matcher = "jsval \<Rightarrow> bool result"

definition filterNoop :: matcher where
  "filterNoop issue = Inr True"

definition filterReject :: matcher where
  "filterReject issue = Inr False"

definition includes_fn :: "jsval \<Rightarrow> string \<Rightarrow> bool result" where
  \<comment> \<open>\<^verbatim>\<open>includes(actual, pattern)\<close>: \<^verbatim>\<open>pattern && actual.toLowerCase().includes(pattern.toLowerCase())\<close>\<close>
  "includes_fn actual pattern =
     (if pattern = [] then Inr False
      else bnd (toLowerCase_method actual) (\<lambda>a. Inr (str_includes a (toLowerCase pattern))))"

definition fuzzyMatches :: "jsval \<Rightarrow> string \<Rightarrow> bool result" where
  \<comment> \<open>\<^verbatim>\<open>pattern && actual.toLowerCase().startsWith(pattern.toLowerCase())\<close>\<close>
  "fuzzyMatches actual pattern =
     (if pattern = [] then Inr False
      else bnd (toLowerCase_method actual) (\<lambda>a. Inr (startsWith a (toLowerCase pattern))))"

definition textFilter :: "string \<Rightarrow> matcher" where
  "textFilter text0 =
     (let text = toLowerCase text0 in
      (\<lambda>issue.
         bnd (get_prop issue ''number'') (\<lambda>n. bnd (to_string n) (\<lambda>ns.
         bnd (get_prop issue ''title'') (\<lambda>t. bnd (to_string t) (\<lambda>ts.
         bnd (get_prop issue ''body'') (\<lambda>b. bnd (to_string b) (\<lambda>bs.
           includes_fn (JStr (''#'' @ ns @ '' '' @ ts @ [CHR 0x0A, CHR 0x0A] @ bs)) text))))))))"

definition referenceFilter :: "env \<Rightarrow> string \<Rightarrow> matcher" where
  "referenceFilter env text =
     (let links = (case getIssueByKey env text of
                     None \<Rightarrow> []
                   | Some issue \<Rightarrow> getIssueLinks env issue);
          byKey = map target_key links
      in (\<lambda>issue.
            bnd (get_prop issue ''key'') (\<lambda>key.
              if key = JStr text then Inr True
              else bnd (to_string key) (\<lambda>k. Inr (has_truthy_property byKey k)))))"

definition filterAssigned :: matcher where
  "filterAssigned issue =
     bnd (get_prop issue ''assignees'') (\<lambda>a. bnd (get_prop a ''length'') (\<lambda>l. Inr (truthy l)))"

definition filterUnassigned :: matcher where
  "filterUnassigned issue =
     bnd (get_prop issue ''assignees'') (\<lambda>a. bnd (get_prop a ''length'') (\<lambda>l. Inr (l = JNum 0)))"

definition filterClosed :: matcher where
  "filterClosed issue = bnd (get_prop issue ''state'') (\<lambda>s. Inr (s = JStr ''closed''))"

definition filterOpen :: matcher where
  "filterOpen issue = bnd (get_prop issue ''state'') (\<lambda>s. Inr (s = JStr ''open''))"

definition filterIssue :: matcher where
  "filterIssue issue = bnd (get_prop issue ''pull_request'') (\<lambda>p. Inr (\<not> truthy p))"

definition filterPull :: matcher where
  "filterPull issue = bnd (get_prop issue ''pull_request'') (\<lambda>p. Inr (truthy p))"

definition filterMilestoned :: matcher where
  "filterMilestoned issue = bnd (get_prop issue ''milestone'') (\<lambda>m. Inr (truthy m))"

definition filterEpic :: "env \<Rightarrow> matcher" where
  \<comment> \<open>\<^verbatim>\<open>!links || !links.some(link => CHILD_LINK_TYPES[link.type])\<close>, where
      \<^verbatim>\<open>CHILD_LINK_TYPES\<close> is a plain object with the own keys \<open>CHILD_OF\<close> and
      \<open>CLOSES\<close>.\<close>
  "filterEpic env issue =
     bnd (get_prop issue ''links'') (\<lambda>links.
       if \<not> truthy links then Inr True
       else bnd (some_method links (\<lambda>link.
                   bnd (get_prop link ''type'') (\<lambda>t. bnd (to_string t) (\<lambda>k.
                     Inr (has_truthy_property [CHILD_OF env, CLOSES env] k)))))
                (\<lambda>b. Inr (\<not> b)))"

definition isFilter :: "env \<Rightarrow> string \<Rightarrow> matcher" where
  "isFilter env v =
     (if v = ''assigned'' then filterAssigned
      else if v = ''unassigned'' then filterUnassigned
      else if v = ''closed'' then filterClosed
      else if v = ''open'' then filterOpen
      else if v = ''issue'' then filterIssue
      else if v = ''pull'' then filterPull
      else if v = ''milestoned'' then filterMilestoned
      else if v = ''epic'' then filterEpic env
      else filterNoop)"

definition labelFilter :: "string \<Rightarrow> matcher" where
  "labelFilter name issue =
     bnd (get_prop issue ''labels'') (\<lambda>labels.
       some_method (or_empty labels) (\<lambda>label.
         bnd (get_prop label ''name'') (\<lambda>n. includes_fn n name)))"

definition repoFilter :: "string \<Rightarrow> matcher" where
  "repoFilter name issue =
     bnd (get_prop issue ''repository'') (\<lambda>repository.
       bnd (get_prop repository ''owner'') (\<lambda>owner.
       bnd (get_prop owner ''login'') (\<lambda>l. bnd (to_string l) (\<lambda>ls.
       bnd (get_prop repository ''name'') (\<lambda>n. bnd (to_string n) (\<lambda>ns.
         includes_fn (JStr (ls @ ''/'' @ ns)) name))))))"

definition milestoneFilter :: "string \<Rightarrow> matcher" where
  "milestoneFilter name issue =
     bnd (get_prop issue ''milestone'') (\<lambda>milestone.
       if \<not> truthy milestone then Inr False
       else bnd (get_prop milestone ''title'') (\<lambda>t. fuzzyMatches t name))"

definition authorFilter :: "string \<Rightarrow> matcher" where
  "authorFilter name issue =
     bnd (get_prop issue ''user'') (\<lambda>user.
       if \<not> truthy user then Inr False
       else bnd (get_prop user ''login'') (\<lambda>l. fuzzyMatches l name))"

definition assigneeFilter :: "string \<Rightarrow> matcher" where
  "assigneeFilter name issue =
     bnd (get_prop issue ''assignees'') (\<lambda>assignees.
       some_method (or_empty assignees) (\<lambda>assignee.
         bnd (get_prop assignee ''login'') (\<lambda>l. fuzzyMatches l name)))"

definition reviewerFilter :: "string \<Rightarrow> matcher" where
  "reviewerFilter name issue =
     bnd (get_prop issue ''requested_reviewers'') (\<lambda>requested_reviewers.
     bnd (get_prop issue ''reviews'') (\<lambda>reviews.
       if \<not> truthy requested_reviewers then Inr False
       else bnd (some_method requested_reviewers (\<lambda>reviewer.
                   bnd (get_prop reviewer ''login'') (\<lambda>l. fuzzyMatches l name)))
              (\<lambda>b. if b then Inr True
                    else some_method (or_empty reviews) (\<lambda>review.
                           bnd (get_prop review ''user'') (\<lambda>u.
                           bnd (get_prop u ''login'') (\<lambda>l. fuzzyMatches l name))))))"

definition commentedFilter :: "string \<Rightarrow> matcher" where
  "commentedFilter name issue =
     bnd (get_prop issue ''comments'') (\<lambda>comments.
       case comments of
         JArr cs \<Rightarrow>
           some_list (\<lambda>comment.
             bnd (get_prop comment ''user'') (\<lambda>u.
             bnd (get_prop u ''login'') (\<lambda>l. fuzzyMatches l name))) cs
       | _ \<Rightarrow> Inr False)"

definition comment_login :: "jsval \<Rightarrow> jsval result" where
  \<comment> \<open>\<^verbatim>\<open>comment.user.login\<close>\<close>
  "comment_login comment = bnd (get_prop comment ''user'') (\<lambda>u. get_prop u ''login'')"

definition involvesFilter :: "string \<Rightarrow> matcher" where
  "involvesFilter name =
     (let isAssigned = assigneeFilter name;
          isAuthor = authorFilter name;
          isReviewer = reviewerFilter name;
          hasCommented = commentedFilter name
      in (\<lambda>issue.
            bnd (isAssigned issue) (\<lambda>a. if a then Inr True else
            bnd (isAuthor issue) (\<lambda>b. if b then Inr True else
            bnd (isReviewer issue) (\<lambda>c. if c then Inr True else
            hasCommented issue)))))"

definition relational :: "(string \<Rightarrow> bool) \<Rightarrow> jsval \<Rightarrow> bool result" where
  \<comment> \<open>A relational comparison of a value with the date string, \<open>cmp\<close> being the
      comparison of a string with it. A string is compared as a string; an array or an object
      is converted to its string first; any other value is compared as a number with the
      date string, which as a number is NaN, so the comparison is false.\<close>
  "relational cmp other =
     (case other of
        JStr s \<Rightarrow> Inr (cmp s)
      | JArr xs \<Rightarrow> bnd (to_string other) (\<lambda>s. Inr (cmp s))
      | JObj ps \<Rightarrow> bnd (to_string other) (\<lambda>s. Inr (cmp s))
      | _ \<Rightarrow> Inr False)"

definition matchTemporal :: "string option \<Rightarrow> string \<Rightarrow> jsval \<Rightarrow> bool result" where
  "matchTemporal qualifier dateString otherDateString =
     (if qualifier = Some ''>'' then
        relational (\<lambda>s. str_less dateString s) otherDateString
      else if qualifier = Some ''>='' then
        relational (\<lambda>s. \<not> str_less s dateString) otherDateString
      else if qualifier = Some ''<'' then
        relational (\<lambda>s. str_less s dateString) otherDateString
      else if qualifier = Some ''<='' then
        relational (\<lambda>s. \<not> str_less dateString s) otherDateString
      else Inr True)"

definition temporalFilter :: "env \<Rightarrow> string \<Rightarrow> string \<Rightarrow> matcher result" where
  \<comment> \<open>\<^verbatim>\<open>temporalFilter(fn)\<close> for the two functions it is applied to, which read the field
      \<open>field\<close> (\<^verbatim>\<open>created_at\<close> or \<^verbatim>\<open>updated_at\<close>) of the record.\<close>
  "temporalFilter env field v =
     (case parseTemporalFilter env v of
        None \<Rightarrow> Inr filterNoop
      | Some flt \<Rightarrow>
          bnd (toISOString env (date flt)) (\<lambda>dateString.
            Inr (\<lambda>issue. bnd (get_prop issue field)
                   (matchTemporal (tqualifier flt) dateString))))"

section \<open>The registry and the compiler\<close>

definition notCallable :: matcher where
  \<comment> \<open>A value that is not a function, in the place of a matcher: calling it throws.\<close>
  "notCallable issue = Inl TypeError"

definition filters :: "env \<Rightarrow> string \<Rightarrow> (string \<Rightarrow> matcher result) option" where
  \<comment> \<open>\<^verbatim>\<open>filters[qualifier]\<close>, \<open>None\<close> when the read gives \<^verbatim>\<open>undefined\<close>. \<^verbatim>\<open>filters\<close>
      is an object literal, so the read also finds what \<^verbatim>\<open>Object.prototype\<close> holds.
      Called as \<^verbatim>\<open>factoryFn(value)\<close> with a string, \<^verbatim>\<open>Object\<close> gives a String object,
      \<^verbatim>\<open>toString\<close> the string \<^verbatim>\<open>[object Undefined]\<close> and \<^verbatim>\<open>isPrototypeOf\<close> the value
      \<^verbatim>\<open>false\<close>, none of which can be called; the other inherited functions throw on the
      missing receiver, and \<^verbatim>\<open>__proto__\<close> is an object and cannot be called.\<close>
  "filters env qualifier =
     (if qualifier = ''text'' then Some (\<lambda>v. Inr (textFilter v))
      else if qualifier = ''ref'' then Some (\<lambda>v. Inr (referenceFilter env v))
      else if qualifier = ''is'' then Some (\<lambda>v. Inr (isFilter env v))
      else if qualifier = ''label'' then Some (\<lambda>v. Inr (labelFilter v))
      else if qualifier = ''repo'' then Some (\<lambda>v. Inr (repoFilter v))
      else if qualifier = ''milestone'' then Some (\<lambda>v. Inr (milestoneFilter v))
      else if qualifier = ''author'' then Some (\<lambda>v. Inr (authorFilter v))
      else if qualifier = ''assignee'' then Some (\<lambda>v. Inr (assigneeFilter v))
      else if qualifier = ''reviewer'' then Some (\<lambda>v. Inr (reviewerFilter v))
      else if qualifier = ''commented'' then Some (\<lambda>v. Inr (commentedFilter v))
      else if qualifier = ''involves'' then Some (\<lambda>v. Inr (involvesFilter v))
      else if qualifier = ''created'' then Some (temporalFilter env ''created_at'')
      else if qualifier = ''updated'' then Some (temporalFilter env ''updated_at'')
      else if qualifier \<in> set [''constructor'', ''toString'', ''isPrototypeOf'']
        then Some (\<lambda>v. Inr notCallable)
      else if qualifier \<in> set object_prototype_names then Some (\<lambda>v. Inl TypeError)
      else None)"

definition registry_names :: "string list" where
  \<comment> \<open>The own keys of \<^verbatim>\<open>filters\<close>.\<close>
  "registry_names =
     [''text'', ''ref'', ''is'', ''label'', ''repo'', ''milestone'', ''author'', ''assignee'',
      ''reviewer'', ''commented'', ''involves'', ''created'', ''updated'']"

record search_term =
  qualifier :: string
  tvalue :: "string option"
  negated :: bool

record user =
  login :: string

definition negate :: "matcher \<Rightarrow> matcher" where
  \<comment> \<open>\<^verbatim>\<open>function(arg) { return !fn(arg); }\<close>\<close>
  "negate fn arg = bnd (fn arg) (\<lambda>b. Inr (\<not> b))"

definition resolve :: "env \<Rightarrow> string \<Rightarrow> string \<Rightarrow> bool \<Rightarrow> matcher result" where
  \<comment> \<open>The end of the callback of \<^verbatim>\<open>terms.map\<close>, from \<^verbatim>\<open>const factoryFn\<close> on.\<close>
  "resolve env q v neg =
     (case filters env q of
        None \<Rightarrow> Inr filterNoop
      | Some factoryFn \<Rightarrow>
          bnd (factoryFn v) (\<lambda>fn. Inr (if neg then negate fn else fn)))"

definition compile_term :: "env \<Rightarrow> user option \<Rightarrow> search_term \<Rightarrow> matcher result" where
  \<comment> \<open>The callback of \<^verbatim>\<open>terms.map\<close>. \<open>tvalue t\<close> is \<^verbatim>\<open>term.value\<close>, \<open>None\<close> for
      \<^verbatim>\<open>null\<close> or \<^verbatim>\<open>undefined\<close>.\<close>
  "compile_term env usr t =
     (case tvalue t of
        None \<Rightarrow> Inr filterNoop
      | Some v \<Rightarrow>
          if v = [] then Inr filterNoop
          else if v = ''@me'' then
            (case usr of
               None \<Rightarrow> Inr filterReject
             | Some u \<Rightarrow> resolve env (qualifier t) (login u) (negated t))
          else resolve env (qualifier t) v (negated t))"

definition substituted :: "user option \<Rightarrow> string \<Rightarrow> string option" where
  \<comment> \<open>What the \<^verbatim>\<open>@me\<close> step of the callback makes of a term value: the value itself, the
      login of the current user for \<^verbatim>\<open>@me\<close>, and nothing for \<^verbatim>\<open>@me\<close> without a current
      user (the callback has returned \<^verbatim>\<open>noneFilter()\<close>).\<close>
  "substituted usr v = (if v = ''@me'' then map_option login usr else Some v)"

fun map_result :: "('a \<Rightarrow> 'b result) \<Rightarrow> 'a list \<Rightarrow> 'b list result" where
  \<comment> \<open>\<^verbatim>\<open>Array.prototype.map\<close> with a callback that may throw.\<close>
  "map_result f [] = Inr []"
| "map_result f (x # xs) = bnd (f x) (\<lambda>y. bnd (map_result f xs) (\<lambda>ys. Inr (y # ys)))"

fun every :: "matcher list \<Rightarrow> jsval \<Rightarrow> bool result" where
  \<comment> \<open>\<^verbatim>\<open>filterFns.every(fn => fn(issue))\<close>: stops at the first falsy result.\<close>
  "every [] issue = Inr True"
| "every (fn # fns) issue = bnd (fn issue) (\<lambda>b. if b then every fns issue else Inr False)"

type_synonym log_entry = "string \<times> error"

definition compiled :: "env \<Rightarrow> matcher list \<Rightarrow> jsval \<Rightarrow> bool result \<times> log_entry list" where
  \<comment> \<open>The function \<^verbatim>\<open>getSearchFilter\<close> returns: what the call gives the caller (a
      boolean, or an exception that escapes) and what it sends to \<^verbatim>\<open>log.warn\<close>.\<close>
  "compiled env filterFns issue =
     (case every filterFns issue of
        Inr b \<Rightarrow> (Inr b, [])
      | Inl err \<Rightarrow> (Inr False, [(issueIdent env issue, err)]))"

definition getSearchFilter ::
  "env \<Rightarrow> search_term list \<Rightarrow> user option \<Rightarrow> (jsval \<Rightarrow> bool result \<times> log_entry list) result" where
  \<comment> \<open>\<^verbatim>\<open>getSearchFilter(search, user)\<close> after \<^verbatim>\<open>parseSearch(search)\<close>, which is not part of
      the module: \<open>terms\<close> is the list it returns.\<close>
  "getSearchFilter env terms usr =
     bnd (map_result (compile_term env usr) terms) (\<lambda>filterFns. Inr (compiled env filterFns))"

section \<open>Running a search, and example data\<close>

definition apply_search ::
  "env \<Rightarrow> search_term list \<Rightarrow> user option \<Rightarrow> jsval \<Rightarrow> (bool result \<times> log_entry list) result" where
  \<comment> \<open>\<^verbatim>\<open>getSearchFilter(search, user)(issue)\<close>\<close>
  "apply_search env terms usr issue = bnd (getSearchFilter env terms usr) (\<lambda>p. Inr (p issue))"

definition reverse_indexed :: "env \<Rightarrow> bool" where
  \<comment> \<open>Modelled from the spec: the store is missing. Its link index serves ``reverse
      lookups'': a record has a link to the key \<open>K\<close> exactly when the record found under
      \<open>K\<close> has a link to it.\<close>
  "reverse_indexed env =
     (\<forall>r k K. get_prop r ''key'' = Inr (JStr k) \<longrightarrow>
        (K \<in> target_key ` set (getIssueLinks env r)
         \<longleftrightarrow> (\<exists>rk. getIssueByKey env K = Some rk
                  \<and> k \<in> target_key ` set (getIssueLinks env rk))))"

text \<open>
  The data of the concrete instances below: three records, a store that knows them and
  the link between \<^verbatim>\<open>ORG/REPO#5\<close> and \<^verbatim>\<open>ORG/REPO#7\<close> from both ends, and a temporal
  parser that knows the date \<^verbatim>\<open>2023-03-01\<close> with or without a comparator and rejects
  every other string.
\<close>

definition example_parse :: "string \<Rightarrow> temporal option" where
  "example_parse s =
     (let (q, d) =
        (if take 2 s = ''>='' then (Some ''>='', drop 2 s)
         else if take 2 s = ''<='' then (Some ''<='', drop 2 s)
         else if take 1 s = ''>'' then (Some ''>'', drop 1 s)
         else if take 1 s = ''<'' then (Some ''<'', drop 1 s)
         else (None, s))
      in if d = ''2023-03-01'' then Some \<lparr>date = 1677628800000, tqualifier = q\<rparr> else None)"

definition example_five :: jsval where
  "example_five = JObj
     [(''key'', JStr ''ORG/REPO#5''), (''number'', JNum 5), (''title'', JStr ''Crash on start''),
      (''state'', JStr ''open''), (''created_at'', JStr ''2023-06-01T00:00:00Z''),
      (''user'', JObj [(''login'', JStr ''Alice99'')]), (''assignees'', JArr []),
      (''labels'', JArr [JObj [(''name'', JStr ''Bug-fix'')]]),
      (''comments'', JArr [JObj [(''user'', JObj [(''login'', JStr ''Alice99'')])],
                           JObj [(''user'', JNull)]]),
      (''links'', JArr [JObj [(''type'', JStr ''CLOSES''),
                              (''target'', JObj [(''key'', JStr ''ORG/REPO#7'')])]])]"

definition example_three :: jsval where
  "example_three = JObj
     [(''key'', JStr ''ORG/REPO#3''), (''number'', JNum 3), (''title'', JStr ''Docs''),
      (''state'', JStr ''closed''), (''created_at'', JStr ''2023-01-01T00:00:00Z''),
      (''user'', JObj [(''login'', JStr ''balice'')]),
      (''labels'', JArr [JObj [(''name'', JStr ''feature'')]])]"

definition example_seven :: jsval where
  "example_seven = JObj
     [(''key'', JStr ''ORG/REPO#7''), (''number'', JNum 7), (''title'', JStr ''Typo''),
      (''state'', JStr ''open''), (''created_at'', JStr ''2023-03-01T00:00:00Z''),
      (''user'', JNull), (''assignees'', JArr []), (''labels'', JArr []),
      (''comments'', JArr [JObj [(''user'', JNull)],
                           JObj [(''user'', JObj [(''login'', JStr ''alice'')])]]),
      (''links'', JArr [JObj [(''type'', JStr ''CLOSED_BY''),
                              (''target'', JObj [(''key'', JStr ''ORG/REPO#5'')])]])]"

definition example_links :: "jsval \<Rightarrow> link list" where
  "example_links issue =
     (if get_prop issue ''key'' = Inr (JStr ''ORG/REPO#5'')
      then [\<lparr>link_type = ''CLOSES'', target_key = ''ORG/REPO#7''\<rparr>]
      else if get_prop issue ''key'' = Inr (JStr ''ORG/REPO#7'')
      then [\<lparr>link_type = ''CLOSED_BY'', target_key = ''ORG/REPO#5''\<rparr>]
      else [])"

definition example_env :: env where
  "example_env =
     \<lparr>getIssueByKey = (\<lambda>k. if k = ''ORG/REPO#5'' then Some example_five
                           else if k = ''ORG/REPO#7'' then Some example_seven
                           else if k = ''ORG/REPO#3'' then Some example_three
                           else None),
      getIssueLinks = example_links,
      parseTemporalFilter = example_parse,
      toISOString = (\<lambda>d. if d = 1677628800000 then Inr ''2023-03-01T00:00:00.000Z''
                          else Inl RangeError),
      issueIdent = (\<lambda>i. case get_prop i ''key'' of Inr (JStr k) \<Rightarrow> k | _ \<Rightarrow> ''?''),
      CHILD_OF = ''CHILD_OF'',
      CLOSES = ''CLOSES''\<rparr>"

definition mk_term :: "string \<Rightarrow> string \<Rightarrow> search_term" where
  \<comment> \<open>The term \<^verbatim>\<open>q:v\<close>\<close>
  "mk_term q v = \<lparr>qualifier = q, tvalue = Some v, negated = False\<rparr>"

definition mk_negated :: "string \<Rightarrow> string \<Rightarrow> search_term" where
  \<comment> \<open>The term \<^verbatim>\<open>-q:v\<close>\<close>
  "mk_negated q v = \<lparr>qualifier = q, tvalue = Some v, negated = True\<rparr>"

section \<open>Sequencing, \<open>every\<close> and \<open>map\<close>\<close>

lemma bnd_simps [simp]: "bnd (Inr v) f = f v" "bnd (Inl e) f = Inl e"
  by (simp_all add: bnd_def)

lemma bnd_eq_Inr: "bnd r f = Inr y \<longleftrightarrow> (\<exists>v. r = Inr v \<and> f v = Inr y)"
  by (cases r) simp_all

lemma every_True_iff: "every fns issue = Inr True \<longleftrightarrow> (\<forall>fn \<in> set fns. fn issue = Inr True)"
  by (induction fns) (auto simp: bnd_def split: sum.splits)

lemma every_append:
  "every (fs @ gs) issue = bnd (every fs issue) (\<lambda>b. if b then every gs issue else Inr False)"
  by (induction fs) (auto simp: bnd_def split: sum.splits)

lemma every_throws:
  "every fns issue = Inl err \<longleftrightarrow>
     (\<exists>pre fn post. fns = pre @ fn # post \<and> (\<forall>g \<in> set pre. g issue = Inr True) \<and> fn issue = Inl err)"
proof (induction fns)
  case Nil
  then show ?case by simp
next
  case (Cons f fs)
  show ?case
  proof (cases "f issue")
    case (Inl e)
    show ?thesis
    proof
      assume "every (f # fs) issue = Inl err"
      with Inl have "e = err" by simp
      with Inl have "f # fs = [] @ f # fs \<and> (\<forall>g \<in> set []. g issue = Inr True) \<and> f issue = Inl err"
        by simp
      then show "\<exists>pre fn post. f # fs = pre @ fn # post \<and> (\<forall>g \<in> set pre. g issue = Inr True) \<and> fn issue = Inl err"
        by blast
    next
      assume "\<exists>pre fn post. f # fs = pre @ fn # post \<and> (\<forall>g \<in> set pre. g issue = Inr True) \<and> fn issue = Inl err"
      then obtain pre fn post where
        *: "f # fs = pre @ fn # post" "\<forall>g \<in> set pre. g issue = Inr True" "fn issue = Inl err"
        by blast
      show "every (f # fs) issue = Inl err"
      proof (cases pre)
        case Nil
        with * Inl show ?thesis by simp
      next
        case (Cons a as)
        with * have "f issue = Inr True" by simp
        with Inl show ?thesis by simp
      qed
    qed
  next
    case (Inr b)
    show ?thesis
    proof (cases b)
      case False
      have "\<not> (\<exists>pre fn post. f # fs = pre @ fn # post \<and> (\<forall>g \<in> set pre. g issue = Inr True) \<and> fn issue = Inl err)"
      proof
        assume "\<exists>pre fn post. f # fs = pre @ fn # post \<and> (\<forall>g \<in> set pre. g issue = Inr True) \<and> fn issue = Inl err"
        then obtain pre fn post where
          *: "f # fs = pre @ fn # post" "\<forall>g \<in> set pre. g issue = Inr True" "fn issue = Inl err"
          by blast
        show False
        proof (cases pre)
          case Nil
          with * Inr show ?thesis by simp
        next
          case (Cons a as)
          with * Inr False show ?thesis by simp
        qed
      qed
      with Inr False show ?thesis by simp
    next
      case True
      have "(\<exists>pre fn post. f # fs = pre @ fn # post \<and> (\<forall>g \<in> set pre. g issue = Inr True) \<and> fn issue = Inl err)
          \<longleftrightarrow> (\<exists>pre fn post. fs = pre @ fn # post \<and> (\<forall>g \<in> set pre. g issue = Inr True) \<and> fn issue = Inl err)"
      proof
        assume "\<exists>pre fn post. f # fs = pre @ fn # post \<and> (\<forall>g \<in> set pre. g issue = Inr True) \<and> fn issue = Inl err"
        then obtain pre fn post where
          *: "f # fs = pre @ fn # post" "\<forall>g \<in> set pre. g issue = Inr True" "fn issue = Inl err"
          by blast
        show "\<exists>pre fn post. fs = pre @ fn # post \<and> (\<forall>g \<in> set pre. g issue = Inr True) \<and> fn issue = Inl err"
        proof (cases pre)
          case Nil
          with * Inr show ?thesis by simp
        next
          case (Cons a as)
          with * have "fs = as @ fn # post" "\<forall>g \<in> set as. g issue = Inr True" by simp_all
          with *(3) show ?thesis by blast
        qed
      next
        assume "\<exists>pre fn post. fs = pre @ fn # post \<and> (\<forall>g \<in> set pre. g issue = Inr True) \<and> fn issue = Inl err"
        then obtain pre fn post where
          *: "fs = pre @ fn # post" "\<forall>g \<in> set pre. g issue = Inr True" "fn issue = Inl err"
          by blast
        with Inr True have "f # fs = (f # pre) @ fn # post" "\<forall>g \<in> set (f # pre). g issue = Inr True"
          by simp_all
        with *(3) show "\<exists>pre fn post. f # fs = pre @ fn # post \<and> (\<forall>g \<in> set pre. g issue = Inr True) \<and> fn issue = Inl err"
          by blast
      qed
      with Inr True Cons.IH show ?thesis by simp
    qed
  qed
qed

lemma map_result_set:
  "map_result f xs = Inr ys \<Longrightarrow> set ys = {y. \<exists>x \<in> set xs. f x = Inr y}"
  by (induction xs arbitrary: ys) (auto simp: bnd_eq_Inr)

lemma map_result_map:
  "map_result f xs = Inr ys \<longleftrightarrow> (\<forall>x \<in> set xs. \<exists>y. f x = Inr y) \<and> ys = map (\<lambda>x. projr (f x)) xs"
  by (induction xs arbitrary: ys) (auto simp: bnd_eq_Inr)

lemma map_result_append:
  "map_result f (xs @ ys) =
     bnd (map_result f xs) (\<lambda>a. bnd (map_result f ys) (\<lambda>b. Inr (a @ b)))"
  by (induction xs) (auto simp: bnd_def split: sum.splits)

lemma fst_compiled: "fst (compiled env fns issue) = Inr (every fns issue = Inr True)"
  by (auto simp: compiled_def split: sum.splits)

lemma getSearchFilter_Inr:
  "getSearchFilter env ts usr = Inr p \<longleftrightarrow>
     (\<exists>fns. map_result (compile_term env usr) ts = Inr fns \<and> p = compiled env fns)"
  by (auto simp: getSearchFilter_def bnd_eq_Inr)

lemma getSearchFilter_result:
  assumes "getSearchFilter env ts usr = Inr p"
  shows "fst (p issue) =
           Inr (\<forall>t \<in> set ts. \<exists>m. compile_term env usr t = Inr m \<and> m issue = Inr True)"
proof -
  from assms obtain fns where
    fns: "map_result (compile_term env usr) ts = Inr fns" and p: "p = compiled env fns"
    by (auto simp: getSearchFilter_Inr)
  from fns have "set fns = {m. \<exists>t \<in> set ts. compile_term env usr t = Inr m}"
    by (rule map_result_set)
  moreover from fns have "\<forall>t \<in> set ts. \<exists>m. compile_term env usr t = Inr m"
    by (simp add: map_result_map)
  ultimately have "(\<forall>fn \<in> set fns. fn issue = Inr True) \<longleftrightarrow>
      (\<forall>t \<in> set ts. \<exists>m. compile_term env usr t = Inr m \<and> m issue = Inr True)"
    by fastforce
  with p show ?thesis by (simp add: fst_compiled every_True_iff)
qed

lemma getSearchFilter_set_cong:
  assumes "getSearchFilter env ts usr = Inr p" and "set ts' = set ts"
  shows "\<exists>p'. getSearchFilter env ts' usr = Inr p' \<and> (\<forall>issue. fst (p' issue) = fst (p issue))"
proof -
  from assms(1) have "\<forall>t \<in> set ts. \<exists>m. compile_term env usr t = Inr m"
    by (auto simp: getSearchFilter_Inr map_result_map)
  with assms(2) have "map_result (compile_term env usr) ts' = Inr (map (\<lambda>x. projr (compile_term env usr x)) ts')"
    by (simp add: map_result_map)
  then obtain p' where p': "getSearchFilter env ts' usr = Inr p'"
    by (auto simp: getSearchFilter_Inr)
  have "fst (p' issue) = fst (p issue)" for issue
    using getSearchFilter_result [OF p', of issue] getSearchFilter_result [OF assms(1), of issue] assms(2)
    by simp
  with p' show ?thesis by blast
qed

lemma compiled_noop:
  "compiled env (fs @ filterNoop # gs) = compiled env (fs @ gs)"
proof
  fix issue
  have "every (filterNoop # gs) issue = every gs issue"
    by (simp add: filterNoop_def)
  then have "every (fs @ filterNoop # gs) issue = every (fs @ gs) issue"
    by (simp only: every_append)
  then show "compiled env (fs @ filterNoop # gs) issue = compiled env (fs @ gs) issue"
    by (simp add: compiled_def)
qed

lemma getSearchFilter_drop_noop:
  assumes "compile_term env usr t = Inr filterNoop"
  shows "getSearchFilter env (ts1 @ t # ts2) usr = getSearchFilter env (ts1 @ ts2) usr"
proof (cases "map_result (compile_term env usr) ts1")
  case (Inl e)
  then show ?thesis by (simp add: getSearchFilter_def map_result_append)
next
  case a: (Inr a)
  show ?thesis
  proof (cases "map_result (compile_term env usr) ts2")
    case (Inl e)
    with a assms show ?thesis by (simp add: getSearchFilter_def map_result_append)
  next
    case (Inr b)
    with a assms show ?thesis
      by (simp add: getSearchFilter_def map_result_append compiled_noop)
  qed
qed



lemmas compile_defs =
  apply_search_def getSearchFilter_def compile_term_def resolve_def filters_def compiled_def
  mk_term_def mk_negated_def

lemmas example_defs =
  example_env_def example_parse_def example_five_def example_three_def example_seven_def
  example_links_def

section \<open>The evaluator: exceptions are caught\<close>

text \<open>
  Claim C1. Applying the predicate that \<^verbatim>\<open>getSearchFilter\<close> returns never lets an
  exception reach the caller: the call returns a boolean for every term list and every
  record. If the matcher of some term throws on the record, the predicate returns
  \<^verbatim>\<open>false\<close>; and when the evaluation reaches a matcher that throws (the matchers of the
  terms before it having returned truthy results), the predicate returns \<^verbatim>\<open>false\<close> and
  sends the record identifier and the error to \<^verbatim>\<open>log.warn\<close>.
\<close>

theorem compiled_predicate_never_throws:
  assumes "getSearchFilter env terms usr = Inr p"
  shows "(\<exists>b. fst (p issue) = Inr b)
       \<and> ((\<exists>t \<in> set terms. \<exists>m e. compile_term env usr t = Inr m \<and> m issue = Inl e)
            \<longrightarrow> fst (p issue) = Inr False)
       \<and> (\<forall>pre t post m err.
            terms = pre @ t # post
            \<and> (\<forall>t' \<in> set pre. \<exists>m'. compile_term env usr t' = Inr m' \<and> m' issue = Inr True)
            \<and> compile_term env usr t = Inr m \<and> m issue = Inl err
            \<longrightarrow> p issue = (Inr False, [(issueIdent env issue, err)]))"
proof (intro conjI allI impI)
  from assms obtain fns where
    fns: "map_result (compile_term env usr) terms = Inr fns" and p: "p = compiled env fns"
    by (auto simp: getSearchFilter_Inr)
  from p show "\<exists>b. fst (p issue) = Inr b"
    by (simp add: fst_compiled)
  {
    assume "\<exists>t \<in> set terms. \<exists>m e. compile_term env usr t = Inr m \<and> m issue = Inl e"
    then have "\<not> (\<forall>t \<in> set terms. \<exists>m. compile_term env usr t = Inr m \<and> m issue = Inr True)"
      by fastforce
    with getSearchFilter_result [OF assms, of issue] show "fst (p issue) = Inr False"
      by simp
  }
  {
    fix pre t post m err
    assume a: "terms = pre @ t # post
      \<and> (\<forall>t' \<in> set pre. \<exists>m'. compile_term env usr t' = Inr m' \<and> m' issue = Inr True)
      \<and> compile_term env usr t = Inr m \<and> m issue = Inl err"
    let ?g = "\<lambda>x. projr (compile_term env usr x)"
    from fns a have 1: "fns = map ?g pre @ m # map ?g post"
      by (simp add: map_result_map)
    from a have 2: "\<forall>g \<in> set (map ?g pre). g issue = Inr True"
      by fastforce
    from a have 3: "m issue = Inl err"
      by simp
    from 1 2 3 have "\<exists>pre' fn post'. fns = pre' @ fn # post'
        \<and> (\<forall>g \<in> set pre'. g issue = Inr True) \<and> fn issue = Inl err"
      by blast
    then have "every fns issue = Inl err"
      by (simp only: every_throws)
    with p show "p issue = (Inr False, [(issueIdent env issue, err)])"
      by (simp add: compiled_def)
  }
qed

theorem compiled_predicate_never_throws_witness:
  "getSearchFilter example_env [mk_term ''is'' ''open'', mk_term ''is'' ''assigned''] None
     = Inr (compiled example_env [filterOpen, filterAssigned])
   \<and> filterAssigned example_five = Inr False
   \<and> filterAssigned example_three = Inl TypeError
   \<and> fst (compiled example_env [filterOpen, filterAssigned] example_three) = Inr False
   \<and> compiled example_env [filterOpen, filterAssigned] (JObj [(''state'', JStr ''open'')])
       = (Inr False, [(''?'', TypeError)])"
proof -
  let ?ts = "[mk_term ''is'' ''open'', mk_term ''is'' ''assigned'']"
  let ?p = "compiled example_env [filterOpen, filterAssigned]"
  let ?r = "JObj [(''state'', JStr ''open'')]"
  have c: "getSearchFilter example_env ?ts None = Inr ?p"
    by (simp add: getSearchFilter_def compile_term_def resolve_def filters_def mk_term_def
        isFilter_def)
  have t: "compile_term example_env None (mk_term ''is'' ''assigned'') = Inr filterAssigned"
    and o: "compile_term example_env None (mk_term ''is'' ''open'') = Inr filterOpen"
    by (simp_all add: compile_term_def resolve_def filters_def mk_term_def isFilter_def)
  have th: "filterAssigned example_three = Inl TypeError"
    by (simp add: filterAssigned_def example_three_def)
  have five: "filterAssigned example_five = Inr False"
    by (simp add: filterAssigned_def example_five_def)
  have r: "filterOpen ?r = Inr True" "filterAssigned ?r = Inl TypeError"
    by (simp_all add: filterOpen_def filterAssigned_def)
  note w = compiled_predicate_never_throws [OF c]
  from w [of example_three] t th have 1: "fst (?p example_three) = Inr False"
    by (simp add: mk_term_def)
  from w [of ?r] have
    "?ts = [mk_term ''is'' ''open''] @ mk_term ''is'' ''assigned'' # []
     \<and> (\<forall>t' \<in> set [mk_term ''is'' ''open''].
          \<exists>m'. compile_term example_env None t' = Inr m' \<and> m' ?r = Inr True)
     \<and> compile_term example_env None (mk_term ''is'' ''assigned'') = Inr filterAssigned
     \<and> filterAssigned ?r = Inl TypeError
     \<longrightarrow> ?p ?r = (Inr False, [(issueIdent example_env ?r, TypeError)])"
    by blast
  with t o r have 2: "?p ?r = (Inr False, [(''?'', TypeError)])"
    by (simp add: example_env_def)
  from c five th 1 2 show ?thesis by simp
qed

section \<open>The empty search and terms without a value\<close>

text \<open>
  Claim C2. The predicate compiled from the empty term list returns \<^verbatim>\<open>true\<close> on every
  record (and logs nothing). A term whose value is missing or the empty string compiles
  to \<^verbatim>\<open>filterNoop\<close>, the always-true matcher, whatever its qualifier and negation flag;
  so it does not constrain the result: the search with the term removed compiles to the
  same predicate.
\<close>

theorem empty_search_matches_everything:
  "apply_search env [] usr issue = Inr (Inr True, [])
   \<and> (tvalue t = None \<or> tvalue t = Some []
        \<longrightarrow> compile_term env usr t = Inr filterNoop
          \<and> filterNoop issue = Inr True
          \<and> getSearchFilter env (ts1 @ t # ts2) usr = getSearchFilter env (ts1 @ ts2) usr)"
proof (intro conjI impI)
  show "apply_search env [] usr issue = Inr (Inr True, [])"
    by (simp add: apply_search_def getSearchFilter_def compiled_def)
  assume "tvalue t = None \<or> tvalue t = Some []"
  then show c: "compile_term env usr t = Inr filterNoop"
    by (auto simp: compile_term_def)
  show "filterNoop issue = Inr True"
    by (simp add: filterNoop_def)
  from c show "getSearchFilter env (ts1 @ t # ts2) usr = getSearchFilter env (ts1 @ ts2) usr"
    by (rule getSearchFilter_drop_noop)
qed

theorem empty_search_matches_everything_witness:
  "apply_search example_env [] None (JObj []) = Inr (Inr True, [])
   \<and> compile_term example_env None \<lparr>qualifier = ''label'', tvalue = Some [], negated = True\<rparr>
       = Inr filterNoop
   \<and> getSearchFilter example_env
       ([mk_term ''is'' ''open''] @ \<lparr>qualifier = ''label'', tvalue = Some [], negated = True\<rparr> # [])
       None
     = getSearchFilter example_env ([mk_term ''is'' ''open''] @ []) None"
  using empty_search_matches_everything
    [of example_env None "JObj []" "\<lparr>qualifier = ''label'', tvalue = Some [], negated = True\<rparr>"
        "[mk_term ''is'' ''open'']" "[]"]
  by simp

section \<open>The order of the terms\<close>

text \<open>
  Claim C10. The result of the compiled predicate does not depend on the order of the
  terms: a permutation of the term list compiles as well, and to a predicate that returns
  the same boolean on every record. The predicate returns \<^verbatim>\<open>true\<close> exactly when the
  matcher of every term (negated where the term is) returns a truthy result on the
  record, which includes that none of them throws; otherwise it returns \<^verbatim>\<open>false\<close>.
\<close>

theorem compiled_predicate_permutation_invariant:
  assumes "getSearchFilter env terms usr = Inr p" and "mset terms' = mset terms"
  shows "(\<exists>p'. getSearchFilter env terms' usr = Inr p' \<and> fst (p' issue) = fst (p issue))
       \<and> fst (p issue)
           = Inr (\<forall>t \<in> set terms. \<exists>m. compile_term env usr t = Inr m \<and> m issue = Inr True)"
proof
  from assms(2) have "set terms' = set terms"
    by (rule mset_eq_setD)
  with getSearchFilter_set_cong [OF assms(1)]
  show "\<exists>p'. getSearchFilter env terms' usr = Inr p' \<and> fst (p' issue) = fst (p issue)"
    by blast
  show "fst (p issue)
      = Inr (\<forall>t \<in> set terms. \<exists>m. compile_term env usr t = Inr m \<and> m issue = Inr True)"
    using assms(1) by (rule getSearchFilter_result)
qed

theorem compiled_predicate_permutation_invariant_witness:
  "getSearchFilter example_env [mk_term ''is'' ''closed'', mk_term ''is'' ''assigned''] None
     = Inr (compiled example_env [filterClosed, filterAssigned])
   \<and> every [filterClosed, filterAssigned] example_seven = Inr False
   \<and> every [filterAssigned, filterClosed] example_three = Inl TypeError
   \<and> (\<exists>p'. getSearchFilter example_env [mk_term ''is'' ''assigned'', mk_term ''is'' ''closed''] None
             = Inr p'
           \<and> fst (p' example_seven) = Inr False \<and> fst (p' example_three) = Inr False)"
proof -
  let ?ts = "[mk_term ''is'' ''closed'', mk_term ''is'' ''assigned'']"
  let ?ts' = "[mk_term ''is'' ''assigned'', mk_term ''is'' ''closed'']"
  let ?p = "compiled example_env [filterClosed, filterAssigned]"
  have c: "getSearchFilter example_env ?ts None = Inr ?p"
    by (simp add: getSearchFilter_def compile_term_def resolve_def filters_def mk_term_def
        isFilter_def)
  have m: "mset ?ts' = mset ?ts"
    by (simp add: add.commute)
  have e: "every [filterClosed, filterAssigned] example_seven = Inr False"
    "every [filterAssigned, filterClosed] example_three = Inl TypeError"
    "every [filterClosed, filterAssigned] example_three = Inl TypeError"
    by (simp_all add: filterClosed_def filterAssigned_def example_seven_def example_three_def)
  from compiled_predicate_permutation_invariant [OF c m, of example_seven]
    compiled_predicate_permutation_invariant [OF c m, of example_three]
  have "\<exists>p'. getSearchFilter example_env ?ts' None = Inr p'
      \<and> fst (p' example_seven) = fst (?p example_seven)
      \<and> fst (p' example_three) = fst (?p example_three)"
    by auto
  with c e show ?thesis
    by (simp add: compiled_def)
qed

section \<open>Strings and single-term searches\<close>

lemma startsWith_prefix: "startsWith s p \<longleftrightarrow> prefix p s"
  by (induction s p rule: startsWith.induct) auto

lemma str_less_lexord:
  "str_less a b \<longleftrightarrow> (a, b) \<in> lexord {(x, y). (of_char x :: nat) < of_char y}"
  by (induction a b rule: str_less.induct) auto


lemma get_prop_JStr_truthy: "get_prop v k = Inr (JStr l) \<Longrightarrow> truthy v"
  by (cases v) (auto split: if_splits)

lemma every_single: "every [fn] issue = bnd (fn issue) Inr"
  by (cases "fn issue") auto

lemma compiled_single:
  "compiled env [fn] issue =
     (case fn issue of Inr b \<Rightarrow> (Inr b, []) | Inl err \<Rightarrow> (Inr False, [(issueIdent env issue, err)]))"
  by (cases "fn issue") (auto simp: compiled_def)

lemma apply_search_single:
  "compile_term env usr t = Inr m \<Longrightarrow> apply_search env [t] usr issue = Inr (compiled env [m] issue)"
  by (simp add: apply_search_def getSearchFilter_def)

lemma fuzzyMatches_True_iff:
  "fuzzyMatches a name = Inr True \<longleftrightarrow>
     name \<noteq> [] \<and> (\<exists>l. a = JStr l \<and> startsWith (toLowerCase l) (toLowerCase name))"
  by (cases a) (auto simp: fuzzyMatches_def toLowerCase_method_def)

lemma authorFilter_True_iff:
  "authorFilter name issue = Inr True \<longleftrightarrow>
     name \<noteq> [] \<and> (\<exists>usr l. get_prop issue ''user'' = Inr usr \<and> get_prop usr ''login'' = Inr (JStr l)
        \<and> startsWith (toLowerCase l) (toLowerCase name))"
proof (cases "get_prop issue ''user''")
  case (Inl e)
  then show ?thesis by (simp add: authorFilter_def)
next
  case (Inr usr)
  show ?thesis
  proof (cases "get_prop usr ''login''")
    case (Inl e)
    with Inr show ?thesis by (auto simp: authorFilter_def)
  next
    case l: (Inr l)
    show ?thesis
    proof (cases "truthy usr")
      case True
      with Inr l show ?thesis by (auto simp: authorFilter_def fuzzyMatches_True_iff)
    next
      case False
      with l have "\<nexists>s. l = JStr s" using get_prop_JStr_truthy by blast
      with Inr l False show ?thesis by (auto simp: authorFilter_def)
    qed
  qed
qed

lemma fst_compiled_single: "fst (compiled env [fn] issue) = Inr (fn issue = Inr True)"
  unfolding fst_compiled every_True_iff by simp

section \<open>The sentinel \<^verbatim>\<open>@me\<close>\<close>

text \<open>
  Claim C4. For a term whose value is \<^verbatim>\<open>@me\<close>: without a current user the term compiles
  to \<^verbatim>\<open>filterReject\<close>, the always-false matcher, and the search made of the term matches
  no record. With a user the value becomes the user's login: the term compiles to what
  the rest of the compiler (\<open>resolve\<close>) makes of the login, which for a non-empty login
  is what the same term with the login as its value compiles to. So \<^verbatim>\<open>author:@me\<close> with
  the login \<^verbatim>\<open>alice\<close> matches exactly the records that have a user whose login is a
  string that starts with \<^verbatim>\<open>alice\<close> once in lower case.
\<close>

theorem at_me_term:
  assumes "tvalue t = Some ''@me''"
  shows "compile_term env None t = Inr filterReject
       \<and> filterReject issue = Inr False
       \<and> apply_search env [t] None issue = Inr (Inr False, [])
       \<and> compile_term env (Some u) t = resolve env (qualifier t) (login u) (negated t)
       \<and> (login u \<noteq> [] \<longrightarrow>
            compile_term env (Some u) t = compile_term env (Some u) (t\<lparr>tvalue := Some (login u)\<rparr>))
       \<and> (\<exists>p. getSearchFilter env [mk_term ''author'' ''@me''] (Some \<lparr>login = ''alice''\<rparr>) = Inr p
            \<and> fst (p issue)
                = Inr (\<exists>usr l. get_prop issue ''user'' = Inr usr
                         \<and> get_prop usr ''login'' = Inr (JStr l)
                         \<and> startsWith (toLowerCase l) ''alice''))"
proof (intro conjI impI)
  from assms show r: "compile_term env None t = Inr filterReject"
    by (simp add: compile_term_def)
  show "filterReject issue = Inr False"
    by (simp add: filterReject_def)
  from r show "apply_search env [t] None issue = Inr (Inr False, [])"
    by (simp add: apply_search_single compiled_single filterReject_def)
  from assms show s: "compile_term env (Some u) t = resolve env (qualifier t) (login u) (negated t)"
    by (simp add: compile_term_def)
  {
    assume "login u \<noteq> []"
    with assms show "compile_term env (Some u) t = compile_term env (Some u) (t\<lparr>tvalue := Some (login u)\<rparr>)"
      by (simp add: compile_term_def)
  }
  have "getSearchFilter env [mk_term ''author'' ''@me''] (Some \<lparr>login = ''alice''\<rparr>)
      = Inr (compiled env [authorFilter ''alice''])"
    by (simp add: getSearchFilter_def compile_term_def resolve_def filters_def mk_term_def)
  moreover have "toLowerCase ''alice'' = ''alice''"
    by (simp add: toLowerCase_def toLowerCase_char_def)
  ultimately show "\<exists>p. getSearchFilter env [mk_term ''author'' ''@me''] (Some \<lparr>login = ''alice''\<rparr>) = Inr p
            \<and> fst (p issue)
                = Inr (\<exists>usr l. get_prop issue ''user'' = Inr usr
                         \<and> get_prop usr ''login'' = Inr (JStr l)
                         \<and> startsWith (toLowerCase l) ''alice'')"
    by (simp add: fst_compiled_single authorFilter_True_iff)
qed

theorem at_me_term_witness:
  "apply_search example_env [mk_term ''author'' ''@me''] None example_five = Inr (Inr False, [])
   \<and> compile_term example_env (Some \<lparr>login = ''alice''\<rparr>) (mk_term ''author'' ''@me'')
       = compile_term example_env (Some \<lparr>login = ''alice''\<rparr>) (mk_term ''author'' ''alice'')
   \<and> (\<exists>p. getSearchFilter example_env [mk_term ''author'' ''@me''] (Some \<lparr>login = ''alice''\<rparr>) = Inr p
        \<and> fst (p example_five) = Inr True \<and> fst (p example_three) = Inr False
        \<and> fst (p example_seven) = Inr False)"
proof -
  have v: "tvalue (mk_term ''author'' ''@me'') = Some ''@me''"
    by (simp add: mk_term_def)
  note w = at_me_term [OF v, of example_env _ "\<lparr>login = ''alice''\<rparr>"]
  have l: "toLowerCase ''Alice99'' = ''alice99''" "toLowerCase ''balice'' = ''balice''"
    by (simp_all add: toLowerCase_def toLowerCase_char_def)
  from w [of example_five] w [of example_three] w [of example_seven] l
  show ?thesis
    by (auto simp: mk_term_def example_five_def example_three_def example_seven_def)
qed

section \<open>Qualifiers outside the registry\<close>

lemma filters_None_iff:
  "filters env q = None \<longleftrightarrow> q \<notin> set registry_names \<and> q \<notin> set object_prototype_names"
  by (simp add: filters_def registry_names_def object_prototype_names_def)

lemma unknown_qualifier_noop:
  "q \<notin> set registry_names \<Longrightarrow> q \<notin> set object_prototype_names \<Longrightarrow>
    resolve env q v neg = Inr filterNoop"
  using filters_None_iff [of env q] by (simp add: resolve_def)

text \<open>
  Claim C3, as amended. A term whose qualifier names no property of the registry object
  (neither one of its keys nor a name it inherits), and which is not \<^verbatim>\<open>@me\<close> without a
  current user, compiles to \<^verbatim>\<open>filterNoop\<close>, the always-true matcher, negated or not. So
  the term list that contains the term compiles to the same predicate as the list with
  the term removed.
\<close>

theorem unknown_qualifier_removable:
  assumes "qualifier t \<notin> set registry_names" and "qualifier t \<notin> set object_prototype_names"
    and "\<not> (tvalue t = Some ''@me'' \<and> usr = None)"
  shows "compile_term env usr t = Inr filterNoop
       \<and> filterNoop issue = Inr True
       \<and> getSearchFilter env (ts1 @ t # ts2) usr = getSearchFilter env (ts1 @ ts2) usr"
proof (intro conjI)
  from assms show c: "compile_term env usr t = Inr filterNoop"
    by (auto simp: compile_term_def unknown_qualifier_noop split: option.splits)
  then show "getSearchFilter env (ts1 @ t # ts2) usr = getSearchFilter env (ts1 @ ts2) usr"
    by (rule getSearchFilter_drop_noop)
  show "filterNoop issue = Inr True"
    by (simp add: filterNoop_def)
qed

theorem unknown_qualifier_removable_witness:
  "compile_term example_env None (mk_negated ''foo'' ''bar'') = Inr filterNoop
   \<and> getSearchFilter example_env
        ([mk_term ''is'' ''open''] @ mk_negated ''foo'' ''bar'' # [mk_term ''label'' ''bug'']) None
     = getSearchFilter example_env ([mk_term ''is'' ''open''] @ [mk_term ''label'' ''bug'']) None
   \<and> apply_search example_env [mk_term ''is'' ''open'', mk_negated ''foo'' ''bar''] None example_five
     = Inr (Inr True, [])"
proof -
  have q: "qualifier (mk_negated ''foo'' ''bar'') \<notin> set registry_names"
    "qualifier (mk_negated ''foo'' ''bar'') \<notin> set object_prototype_names"
    by (simp_all add: mk_negated_def registry_names_def object_prototype_names_def)
  have v: "\<not> (tvalue (mk_negated ''foo'' ''bar'') = Some ''@me'' \<and> (None :: user option) = None)"
    by (simp add: mk_negated_def)
  note w = unknown_qualifier_removable [OF q v, of example_env]
  from w [of example_five "[mk_term ''is'' ''open'']" "[]"]
  have "getSearchFilter example_env [mk_term ''is'' ''open'', mk_negated ''foo'' ''bar''] None
      = getSearchFilter example_env [mk_term ''is'' ''open''] None"
    by simp
  then have "apply_search example_env [mk_term ''is'' ''open'', mk_negated ''foo'' ''bar''] None
        example_five
      = apply_search example_env [mk_term ''is'' ''open''] None example_five"
    by (simp add: apply_search_def)
  also have "\<dots> = Inr (Inr True, [])"
    by (simp add: compile_defs isFilter_def filterOpen_def example_five_def)
  finally have 1: "apply_search example_env [mk_term ''is'' ''open'', mk_negated ''foo'' ''bar'']
      None example_five = Inr (Inr True, [])" .
  from w [of example_five "[mk_term ''is'' ''open'']" "[mk_term ''label'' ''bug'']"] 1
  show ?thesis by simp
qed

text \<open>
  The claim as stated fails for \<^verbatim>\<open>@me\<close> without a current user: the qualifier \<^verbatim>\<open>foo\<close> is
  not in the registry, and \<^verbatim>\<open>foo:@me\<close> compiles to the always-false matcher, where the
  search with the term removed matches the record.
\<close>

theorem unknown_qualifier_counterexample:
  "''foo'' \<notin> set registry_names
   \<and> compile_term example_env None (mk_term ''foo'' ''@me'') = Inr filterReject
   \<and> apply_search example_env [mk_term ''foo'' ''@me''] None example_five = Inr (Inr False, [])
   \<and> apply_search example_env [] None example_five = Inr (Inr True, [])"
  by (simp add: registry_names_def compile_defs filterReject_def)

text \<open>
  The amended claim leaves out the names the registry object inherits. The registry is
  read with \<^verbatim>\<open>filters[qualifier]\<close>, and that read also finds the properties of
  \<^verbatim>\<open>Object.prototype\<close>: \<^verbatim>\<open>constructor\<close> is not a key of the registry, yet
  \<^verbatim>\<open>constructor:bar\<close> (negated or not) passes the test for an unknown qualifier and
  compiles to a value that cannot be called; the compiled predicate returns \<^verbatim>\<open>false\<close> on
  every record and logs a TypeError, where the search with the term removed returns
  \<^verbatim>\<open>true\<close>.
\<close>

lemma inherited_qualifier_matches_nothing:
  "''constructor'' \<notin> set registry_names
   \<and> apply_search env [\<lparr>qualifier = ''constructor'', tvalue = Some ''bar'', negated = neg\<rparr>]
        usr issue
     = Inr (Inr False, [(issueIdent env issue, TypeError)])
   \<and> apply_search env [] usr issue = Inr (Inr True, [])"
  by (simp add: registry_names_def apply_search_def getSearchFilter_def compile_term_def
      resolve_def filters_def compiled_def notCallable_def negate_def)

text \<open>
  Other inherited names, \<^verbatim>\<open>valueOf\<close> among them, make \<^verbatim>\<open>getSearchFilter\<close> itself throw.
\<close>

lemma inherited_qualifier_throws:
  "apply_search env [\<lparr>qualifier = ''valueOf'', tvalue = Some ''bar'', negated = neg\<rparr>] usr issue
     = Inl TypeError"
  by (simp add: apply_search_def getSearchFilter_def compile_term_def resolve_def filters_def
      object_prototype_names_def)

section \<open>Negation\<close>

text \<open>
  Claim C7, as amended. Take a term whose value is not empty and not \<^verbatim>\<open>@me\<close> without a
  user, and whose qualifier the registry read finds, so that the term reaches the
  negation; let \<open>m\<close> be the matcher of its positive form. The negated form compiles to
  the negation of \<open>m\<close>: on a record where \<open>m\<close> returns \<open>b\<close> the positive search returns
  \<open>b\<close> and the negated one \<open>\<not> b\<close>; on a record where \<open>m\<close> throws both return
  \<^verbatim>\<open>false\<close> (and log the error). Every other term (no value, an empty value, \<^verbatim>\<open>@me\<close>
  without a user, a qualifier the registry read does not find) leaves the callback
  before the negation: its two forms compile to the same matcher.
\<close>

theorem negation_complement:
  "((\<exists>v. tvalue t = Some v \<and> v \<noteq> [] \<and> \<not> (v = ''@me'' \<and> usr = None))
      \<and> filters env (qualifier t) \<noteq> None
      \<and> compile_term env usr (t\<lparr>negated := False\<rparr>) = Inr m
     \<longrightarrow> compile_term env usr (t\<lparr>negated := True\<rparr>) = Inr (negate m)
       \<and> (m issue = Inr b \<longrightarrow>
             apply_search env [t\<lparr>negated := False\<rparr>] usr issue = Inr (Inr b, [])
           \<and> apply_search env [t\<lparr>negated := True\<rparr>] usr issue = Inr (Inr (\<not> b), []))
       \<and> (m issue = Inl e \<longrightarrow>
             apply_search env [t\<lparr>negated := False\<rparr>] usr issue
               = Inr (Inr False, [(issueIdent env issue, e)])
           \<and> apply_search env [t\<lparr>negated := True\<rparr>] usr issue
               = Inr (Inr False, [(issueIdent env issue, e)])))
   \<and> (tvalue t = None \<or> tvalue t = Some [] \<or> tvalue t = Some ''@me'' \<and> usr = None
        \<or> filters env (qualifier t) = None
     \<longrightarrow> compile_term env usr (t\<lparr>negated := True\<rparr>)
         = compile_term env usr (t\<lparr>negated := False\<rparr>))"
proof (intro conjI impI)
  assume a: "(\<exists>v. tvalue t = Some v \<and> v \<noteq> [] \<and> \<not> (v = ''@me'' \<and> usr = None))
      \<and> filters env (qualifier t) \<noteq> None
      \<and> compile_term env usr (t\<lparr>negated := False\<rparr>) = Inr m"
  then obtain v factoryFn where v: "tvalue t = Some v" "v \<noteq> []" "\<not> (v = ''@me'' \<and> usr = None)"
    and f: "filters env (qualifier t) = Some factoryFn"
    and m: "compile_term env usr (t\<lparr>negated := False\<rparr>) = Inr m"
    by auto
  define w where "w = (if v = ''@me'' then login (the usr) else v)"
  from v f have pos: "compile_term env usr (t\<lparr>negated := False\<rparr>) = bnd (factoryFn w) Inr"
    and neg: "compile_term env usr (t\<lparr>negated := True\<rparr>)
        = bnd (factoryFn w) (\<lambda>fn. Inr (negate fn))"
    by (auto simp: compile_term_def resolve_def w_def)
  from pos m have "factoryFn w = Inr m"
    by (cases "factoryFn w") simp_all
  with neg show n: "compile_term env usr (t\<lparr>negated := True\<rparr>) = Inr (negate m)"
    by simp
  {
    assume "m issue = Inr b"
    with m n show "apply_search env [t\<lparr>negated := False\<rparr>] usr issue = Inr (Inr b, [])"
      and "apply_search env [t\<lparr>negated := True\<rparr>] usr issue = Inr (Inr (\<not> b), [])"
      by (simp_all add: apply_search_single compiled_single negate_def)
  }
  {
    assume "m issue = Inl e"
    with m n show "apply_search env [t\<lparr>negated := False\<rparr>] usr issue
               = Inr (Inr False, [(issueIdent env issue, e)])"
      and "apply_search env [t\<lparr>negated := True\<rparr>] usr issue
               = Inr (Inr False, [(issueIdent env issue, e)])"
      by (simp_all add: apply_search_single compiled_single negate_def)
  }
next
  assume "tvalue t = None \<or> tvalue t = Some [] \<or> tvalue t = Some ''@me'' \<and> usr = None
        \<or> filters env (qualifier t) = None"
  then show "compile_term env usr (t\<lparr>negated := True\<rparr>)
         = compile_term env usr (t\<lparr>negated := False\<rparr>)"
    by (auto simp: compile_term_def resolve_def split: option.splits)
qed

theorem negation_complement_witness:
  "compile_term example_env None (mk_term ''is'' ''assigned'') = Inr filterAssigned
   \<and> filterAssigned example_five = Inr False
   \<and> apply_search example_env [mk_term ''is'' ''assigned''] None example_five = Inr (Inr False, [])
   \<and> apply_search example_env [mk_negated ''is'' ''assigned''] None example_five = Inr (Inr True, [])
   \<and> filterAssigned example_three = Inl TypeError
   \<and> apply_search example_env [mk_term ''is'' ''assigned''] None example_three
       = Inr (Inr False, [(''ORG/REPO#3'', TypeError)])
   \<and> apply_search example_env [mk_negated ''is'' ''assigned''] None example_three
       = Inr (Inr False, [(''ORG/REPO#3'', TypeError)])
   \<and> compile_term example_env None (mk_negated ''foo'' ''bar'')
       = compile_term example_env None (mk_term ''foo'' ''bar'')"
proof -
  have c: "compile_term example_env None (mk_term ''is'' ''assigned'') = Inr filterAssigned"
    by (simp add: compile_term_def resolve_def filters_def mk_term_def isFilter_def)
  have f: "filters example_env ''is'' \<noteq> None" "filters example_env ''foo'' = None"
    by (simp_all add: filters_def object_prototype_names_def)
  have e: "filterAssigned example_five = Inr False" "filterAssigned example_three = Inl TypeError"
    by (simp_all add: filterAssigned_def example_five_def example_three_def)
  have i: "issueIdent example_env example_three = ''ORG/REPO#3''"
    by (simp add: example_env_def example_three_def)
  note w = negation_complement [of "mk_term ''is'' ''assigned''" None example_env filterAssigned]
  from w [of example_five False] c f e
  have 1: "apply_search example_env [mk_term ''is'' ''assigned''] None example_five = Inr (Inr False, [])
    \<and> apply_search example_env [mk_negated ''is'' ''assigned''] None example_five = Inr (Inr True, [])"
    by (simp add: mk_term_def mk_negated_def)
  from w [of example_three _ TypeError] c f e i
  have 2: "apply_search example_env [mk_term ''is'' ''assigned''] None example_three
       = Inr (Inr False, [(''ORG/REPO#3'', TypeError)])
   \<and> apply_search example_env [mk_negated ''is'' ''assigned''] None example_three
       = Inr (Inr False, [(''ORG/REPO#3'', TypeError)])"
    by (simp add: mk_term_def mk_negated_def)
  from negation_complement [of "mk_term ''foo'' ''bar''" None example_env] f
  have 3: "compile_term example_env None (mk_negated ''foo'' ''bar'')
       = compile_term example_env None (mk_term ''foo'' ''bar'')"
    by (simp add: mk_term_def mk_negated_def)
  from c e 1 2 3 show ?thesis by simp
qed

text \<open>
  The claim as stated fails: \<^verbatim>\<open>foo:bar\<close> and \<^verbatim>\<open>-foo:bar\<close> both match a record on which
  nothing throws, and \<^verbatim>\<open>author:@me\<close> and \<^verbatim>\<open>-author:@me\<close> without a user both reject it.
\<close>

theorem negation_counterexample:
  "apply_search example_env [mk_term ''foo'' ''bar''] None example_five = Inr (Inr True, [])
   \<and> apply_search example_env [mk_negated ''foo'' ''bar''] None example_five = Inr (Inr True, [])
   \<and> apply_search example_env [mk_term ''author'' ''@me''] None example_five = Inr (Inr False, [])
   \<and> apply_search example_env [mk_negated ''author'' ''@me''] None example_five
       = Inr (Inr False, [])"
  by (simp add: compile_defs filterNoop_def filterReject_def object_prototype_names_def)

section \<open>Terms that reach a factory\<close>

lemma compile_term_substituted:
  assumes "tvalue t = Some v" and "v \<noteq> []" and "substituted usr v = Some w"
  shows "compile_term env usr t = resolve env (qualifier t) w (negated t)"
  using assms by (auto simp: compile_term_def substituted_def split: option.splits if_splits)

lemma resolve_factory:
  assumes "filters env q = Some (\<lambda>v. Inr (mk v))"
  shows "resolve env q w neg = Inr (if neg then negate (mk w) else mk w)"
  using assms by (simp add: resolve_def)

section \<open>Temporal filters\<close>












section \<open>References\<close>

text \<open>
  The example store lists its one link from both ends.
\<close>

lemma reverse_indexed_example: "reverse_indexed example_env"
  unfolding reverse_indexed_def
  by (auto simp: example_env_def example_links_def example_five_def example_seven_def
      example_three_def split: if_splits)

text \<open>
  Claim C8, as amended. Take a ref term that is not negated and whose value is not
  empty, and let \<open>K\<close> be what reaches the factory (the value, or the login of the current
  user for \<^verbatim>\<open>@me\<close>), and a record whose key is a string that names no property of
  \<^verbatim>\<open>Object.prototype\<close> (such keys are left aside, see
  \<open>inherited_key_matches_every_reference\<close>). The compiled predicate matches the record
  when its key is \<open>K\<close>, and when its key is the target key of one of the links the store
  returns for the record it finds under \<open>K\<close>; it matches no other record. With a link
  index that serves reverse lookups (\<open>reverse_indexed\<close>) these are the record whose key
  is \<open>K\<close> and the records with a link whose target key is \<open>K\<close>.
\<close>

theorem reference_filter:
  assumes "qualifier t = ''ref''" and "tvalue t = Some v" and "v \<noteq> []"
    and "substituted usr v = Some K" and "\<not> negated t"
    and "get_prop issue ''key'' = Inr (JStr k)" and "k \<notin> set object_prototype_names"
  shows "apply_search env [t] usr issue
           = Inr (Inr (k = K \<or> (\<exists>r. getIssueByKey env K = Some r
                                   \<and> k \<in> target_key ` set (getIssueLinks env r))), [])
       \<and> (reverse_indexed env \<longrightarrow>
            apply_search env [t] usr issue
              = Inr (Inr (k = K \<or> K \<in> target_key ` set (getIssueLinks env issue)), []))"
proof -
  from assms(2,3,4) have "compile_term env usr t = resolve env (qualifier t) K (negated t)"
    by (rule compile_term_substituted)
  with assms(1,5) have c: "compile_term env usr t = Inr (referenceFilter env K)"
    by (simp add: resolve_def filters_def)
  from assms(6,7) have "referenceFilter env K issue
      = Inr (k = K \<or> (\<exists>r. getIssueByKey env K = Some r
                        \<and> k \<in> target_key ` set (getIssueLinks env r)))"
    by (cases "getIssueByKey env K") (auto simp: referenceFilter_def has_truthy_property_def)
  with c have 1: "apply_search env [t] usr issue
           = Inr (Inr (k = K \<or> (\<exists>r. getIssueByKey env K = Some r
                                   \<and> k \<in> target_key ` set (getIssueLinks env r))), [])"
    by (simp add: apply_search_single compiled_single)
  have "K \<in> target_key ` set (getIssueLinks env issue)
      \<longleftrightarrow> (\<exists>r. getIssueByKey env K = Some r \<and> k \<in> target_key ` set (getIssueLinks env r))"
    if "reverse_indexed env"
    using that assms(6) unfolding reverse_indexed_def by blast
  with 1 show ?thesis by simp
qed

theorem reference_filter_witness:
  "reverse_indexed example_env
   \<and> apply_search example_env [mk_term ''ref'' ''ORG/REPO#5''] None example_five = Inr (Inr True, [])
   \<and> getIssueLinks example_env example_seven
       = [\<lparr>link_type = ''CLOSED_BY'', target_key = ''ORG/REPO#5''\<rparr>]
   \<and> apply_search example_env [mk_term ''ref'' ''ORG/REPO#5''] None example_seven = Inr (Inr True, [])
   \<and> getIssueLinks example_env example_three = []
   \<and> apply_search example_env [mk_term ''ref'' ''ORG/REPO#5''] None example_three = Inr (Inr False, [])"
proof -
  have t: "qualifier (mk_term ''ref'' ''ORG/REPO#5'') = ''ref''"
    "tvalue (mk_term ''ref'' ''ORG/REPO#5'') = Some ''ORG/REPO#5''"
    "\<not> negated (mk_term ''ref'' ''ORG/REPO#5'')"
    and v: "''ORG/REPO#5'' \<noteq> []" "substituted None ''ORG/REPO#5'' = Some ''ORG/REPO#5''"
    by (simp_all add: mk_term_def substituted_def)
  have k: "get_prop example_five ''key'' = Inr (JStr ''ORG/REPO#5'')"
    "get_prop example_seven ''key'' = Inr (JStr ''ORG/REPO#7'')"
    "get_prop example_three ''key'' = Inr (JStr ''ORG/REPO#3'')"
    by (simp_all add: example_five_def example_seven_def example_three_def)
  have n: "''ORG/REPO#5'' \<notin> set object_prototype_names"
    "''ORG/REPO#7'' \<notin> set object_prototype_names"
    "''ORG/REPO#3'' \<notin> set object_prototype_names"
    by (simp_all add: object_prototype_names_def)
  have s: "getIssueLinks example_env example_seven
       = [\<lparr>link_type = ''CLOSED_BY'', target_key = ''ORG/REPO#5''\<rparr>]"
    "getIssueLinks example_env example_three = []"
    by (simp_all add: example_env_def example_links_def example_seven_def example_three_def)
  note r = reverse_indexed_example
  note w = reference_filter [OF t(1,2) v t(3), of _ _ example_env]
  from w [OF k(1) n(1), THEN conjunct1]
  have 1: "apply_search example_env [mk_term ''ref'' ''ORG/REPO#5''] None example_five
      = Inr (Inr True, [])"
    by simp
  from w [OF k(2) n(2), THEN conjunct2, rule_format, OF r] s
  have 2: "apply_search example_env [mk_term ''ref'' ''ORG/REPO#5''] None example_seven
      = Inr (Inr True, [])"
    by simp
  from w [OF k(3) n(3), THEN conjunct2, rule_format, OF r] s
  have 3: "apply_search example_env [mk_term ''ref'' ''ORG/REPO#5''] None example_three
      = Inr (Inr False, [])"
    by simp
  from r s 1 2 3 show ?thesis by simp
qed

text \<open>
  The claim as stated fails for a negated term, for an empty value and for \<^verbatim>\<open>@me\<close>
  without a current user: \<^verbatim>\<open>-ref:ORG/REPO#5\<close> does not match the record with that key
  and matches \<^verbatim>\<open>ORG/REPO#3\<close>, which has another key and no link; \<^verbatim>\<open>ref:\<close> without a
  value matches \<^verbatim>\<open>ORG/REPO#3\<close> too; and \<^verbatim>\<open>ref:@me\<close> without a current user does not
  match a record with the key \<^verbatim>\<open>@me\<close>.
\<close>

theorem reference_counterexample:
  "get_prop example_five ''key'' = Inr (JStr ''ORG/REPO#5'')
   \<and> apply_search example_env [mk_negated ''ref'' ''ORG/REPO#5''] None example_five
       = Inr (Inr False, [])
   \<and> get_prop example_three ''key'' = Inr (JStr ''ORG/REPO#3'')
   \<and> getIssueLinks example_env example_three = []
   \<and> ''ORG/REPO#3'' \<notin> target_key ` set (getIssueLinks example_env example_five)
   \<and> apply_search example_env [mk_negated ''ref'' ''ORG/REPO#5''] None example_three
       = Inr (Inr True, [])
   \<and> apply_search example_env [mk_term ''ref'' []] None example_three = Inr (Inr True, [])
   \<and> apply_search example_env [mk_term ''ref'' ''@me''] None (JObj [(''key'', JStr ''@me'')])
       = Inr (Inr False, [])"
  by (simp add: compile_defs referenceFilter_def has_truthy_property_def negate_def
      object_prototype_names_def filterNoop_def filterReject_def example_defs)

text \<open>
  \<^verbatim>\<open>byKey\<close> is a plain object, so \<^verbatim>\<open>byKey[key]\<close> also finds what it inherits: a record
  whose key names a property of \<^verbatim>\<open>Object.prototype\<close> matches every ref term.
\<close>

lemma inherited_key_matches_every_reference:
  "apply_search env [mk_term ''ref'' ''ORG/REPO#5''] usr (JObj [(''key'', JStr ''toString'')])
     = Inr (Inr True, [])"
  by (cases "getIssueByKey env ''ORG/REPO#5''")
    (simp_all add: compile_defs referenceFilter_def has_truthy_property_def
      object_prototype_names_def)

section \<open>Comments\<close>

lemma some_list_True_iff:
  "some_list f cs = Inr True \<longleftrightarrow>
     (\<exists>pre c post. cs = pre @ c # post \<and> (\<forall>c' \<in> set pre. \<exists>b. f c' = Inr b) \<and> f c = Inr True)"
  (is "?L cs \<longleftrightarrow> ?R cs")
proof (induction cs)
  case Nil
  then show ?case by simp
next
  case (Cons x xs)
  show ?case
  proof (cases "f x")
    case (Inl e)
    have "\<not> ?R (x # xs)"
    proof
      assume "?R (x # xs)"
      then obtain pre c post where
        *: "x # xs = pre @ c # post" "\<forall>c' \<in> set pre. \<exists>b. f c' = Inr b" "f c = Inr True"
        by blast
      with Inl show False by (cases pre) auto
    qed
    with Inl show ?thesis by simp
  next
    case (Inr b)
    show ?thesis
    proof (cases b)
      case True
      with Inr have "x # xs = [] @ x # xs \<and> (\<forall>c' \<in> set []. \<exists>b. f c' = Inr b) \<and> f x = Inr True"
        by simp
      then have "?R (x # xs)" by blast
      with Inr True show ?thesis by simp
    next
      case False
      have "?R (x # xs) \<longleftrightarrow> ?R xs"
      proof
        assume "?R (x # xs)"
        then obtain pre c post where
          *: "x # xs = pre @ c # post" "\<forall>c' \<in> set pre. \<exists>b. f c' = Inr b" "f c = Inr True"
          by blast
        show "?R xs"
        proof (cases pre)
          case Nil
          with * Inr False show ?thesis by simp
        next
          case (Cons a as)
          with * have "xs = as @ c # post" "\<forall>c' \<in> set as. \<exists>b. f c' = Inr b" by simp_all
          with *(3) show ?thesis by blast
        qed
      next
        assume "?R xs"
        then obtain pre c post where
          *: "xs = pre @ c # post" "\<forall>c' \<in> set pre. \<exists>b. f c' = Inr b" "f c = Inr True"
          by blast
        with Inr have "x # xs = (x # pre) @ c # post" "\<forall>c' \<in> set (x # pre). \<exists>b. f c' = Inr b"
          by simp_all
        with *(3) show "?R (x # xs)" by blast
      qed
      with Inr False Cons.IH show ?thesis by simp
    qed
  qed
qed

lemma some_list_total:
  assumes "\<forall>c \<in> set cs. \<exists>b. f c = Inr b"
  shows "some_list f cs = Inr (\<exists>c \<in> set cs. f c = Inr True)"
  using assms by (induction cs) auto

lemma comment_matcher:
  assumes "name \<noteq> []"
  shows "bnd (get_prop c ''user'') (\<lambda>u. bnd (get_prop u ''login'') (\<lambda>l. fuzzyMatches l name))
           = Inr b
       \<longleftrightarrow> (\<exists>l. comment_login c = Inr (JStr l)
               \<and> b = startsWith (toLowerCase l) (toLowerCase name))"
proof (cases "get_prop c ''user''")
  case (Inl e)
  then show ?thesis by (simp add: comment_login_def)
next
  case (Inr u)
  show ?thesis
  proof (cases "get_prop u ''login''")
    case (Inl e)
    with Inr show ?thesis by (simp add: comment_login_def)
  next
    case l: (Inr l)
    with Inr assms show ?thesis
      by (cases l) (auto simp: comment_login_def fuzzyMatches_def toLowerCase_method_def)
  qed
qed

text \<open>
  Claim C9, as amended. Take a commented term that is not negated and whose value is not
  empty, and let \<open>NAME\<close> be what reaches the factory (the value, or the login of the
  current user for \<^verbatim>\<open>@me\<close>), not empty either. On a record whose \<^verbatim>\<open>comments\<close> is missing
  or not an array the compiled predicate returns \<^verbatim>\<open>false\<close> and nothing is thrown
  (nothing is logged). On a record whose \<^verbatim>\<open>comments\<close> is an array, it matches exactly
  when the login of some comment starts with \<open>NAME\<close>, both in lower case, and every
  comment before that one has a user with a string as login (a comment without one,
  met before any match, throws; a later one is never looked at). If every comment has
  such a user, it matches exactly when the login of some comment starts with \<open>NAME\<close>,
  and nothing is thrown.
\<close>

theorem commented_filter:
  assumes "qualifier t = ''commented''" and "tvalue t = Some v" and "v \<noteq> []"
    and "substituted usr v = Some name" and "name \<noteq> []" and "\<not> negated t"
  shows "(\<forall>c. get_prop issue ''comments'' = Inr c \<and> (\<nexists>cs. c = JArr cs)
            \<longrightarrow> apply_search env [t] usr issue = Inr (Inr False, []))
       \<and> (\<forall>cs. get_prop issue ''comments'' = Inr (JArr cs)
            \<longrightarrow> (\<exists>log. apply_search env [t] usr issue
                   = Inr (Inr (\<exists>pre c post. cs = pre @ c # post
                                 \<and> (\<forall>c' \<in> set pre. \<exists>l. comment_login c' = Inr (JStr l))
                                 \<and> (\<exists>l. comment_login c = Inr (JStr l)
                                       \<and> startsWith (toLowerCase l) (toLowerCase name))), log)))
       \<and> (\<forall>cs. get_prop issue ''comments'' = Inr (JArr cs)
              \<and> (\<forall>c \<in> set cs. \<exists>l. comment_login c = Inr (JStr l))
            \<longrightarrow> apply_search env [t] usr issue
                  = Inr (Inr (\<exists>c \<in> set cs. \<exists>l. comment_login c = Inr (JStr l)
                                \<and> startsWith (toLowerCase l) (toLowerCase name)), []))"
proof (intro conjI allI impI)
  let ?f = "\<lambda>comment. bnd (get_prop comment ''user'') (\<lambda>u.
                bnd (get_prop u ''login'') (\<lambda>l. fuzzyMatches l name))"
  note m = comment_matcher [OF assms(5)]
  from assms(2,3,4) have "compile_term env usr t = resolve env (qualifier t) name (negated t)"
    by (rule compile_term_substituted)
  with assms(1,6) have c: "compile_term env usr t = Inr (commentedFilter name)"
    by (simp add: resolve_def filters_def)
  {
    fix x
    assume "get_prop issue ''comments'' = Inr x \<and> (\<nexists>cs. x = JArr cs)"
    then have "commentedFilter name issue = Inr False"
      by (cases x) (auto simp: commentedFilter_def)
    with c show "apply_search env [t] usr issue = Inr (Inr False, [])"
      by (simp add: apply_search_single compiled_single)
  }
  {
    fix cs
    assume a: "get_prop issue ''comments'' = Inr (JArr cs)"
    then have r: "commentedFilter name issue = some_list ?f cs"
      by (simp add: commentedFilter_def)
    have "(some_list ?f cs = Inr True)
        \<longleftrightarrow> (\<exists>pre c post. cs = pre @ c # post
              \<and> (\<forall>c' \<in> set pre. \<exists>l. comment_login c' = Inr (JStr l))
              \<and> (\<exists>l. comment_login c = Inr (JStr l)
                    \<and> startsWith (toLowerCase l) (toLowerCase name)))"
      unfolding some_list_True_iff m by auto
    with r have "fst (compiled env [commentedFilter name] issue)
        = Inr (\<exists>pre c post. cs = pre @ c # post
              \<and> (\<forall>c' \<in> set pre. \<exists>l. comment_login c' = Inr (JStr l))
              \<and> (\<exists>l. comment_login c = Inr (JStr l)
                    \<and> startsWith (toLowerCase l) (toLowerCase name)))"
      by (simp add: fst_compiled_single)
    then have "\<exists>log. compiled env [commentedFilter name] issue
        = (Inr (\<exists>pre c post. cs = pre @ c # post
              \<and> (\<forall>c' \<in> set pre. \<exists>l. comment_login c' = Inr (JStr l))
              \<and> (\<exists>l. comment_login c = Inr (JStr l)
                    \<and> startsWith (toLowerCase l) (toLowerCase name))), log)"
      by (cases "compiled env [commentedFilter name] issue") simp
    with c show "\<exists>log. apply_search env [t] usr issue
                   = Inr (Inr (\<exists>pre c post. cs = pre @ c # post
                                 \<and> (\<forall>c' \<in> set pre. \<exists>l. comment_login c' = Inr (JStr l))
                                 \<and> (\<exists>l. comment_login c = Inr (JStr l)
                                       \<and> startsWith (toLowerCase l) (toLowerCase name))), log)"
      by (simp add: apply_search_single)
  }
  {
    fix cs
    assume a: "get_prop issue ''comments'' = Inr (JArr cs)
              \<and> (\<forall>c \<in> set cs. \<exists>l. comment_login c = Inr (JStr l))"
    then have "\<forall>c \<in> set cs. \<exists>b. ?f c = Inr b"
      unfolding m by blast
    then have "some_list ?f cs = Inr (\<exists>c \<in> set cs. ?f c = Inr True)"
      by (rule some_list_total)
    moreover have "(\<exists>c \<in> set cs. ?f c = Inr True)
        \<longleftrightarrow> (\<exists>c \<in> set cs. \<exists>l. comment_login c = Inr (JStr l)
                                \<and> startsWith (toLowerCase l) (toLowerCase name))"
      unfolding m by auto
    ultimately have "commentedFilter name issue
        = Inr (\<exists>c \<in> set cs. \<exists>l. comment_login c = Inr (JStr l)
                                \<and> startsWith (toLowerCase l) (toLowerCase name))"
      using a by (simp add: commentedFilter_def)
    with c show "apply_search env [t] usr issue
                  = Inr (Inr (\<exists>c \<in> set cs. \<exists>l. comment_login c = Inr (JStr l)
                                \<and> startsWith (toLowerCase l) (toLowerCase name)), [])"
      by (simp add: apply_search_single compiled_single)
  }
qed


theorem commented_filter_witness:
  "get_prop example_three ''comments'' = Inr JUndefined
   \<and> apply_search example_env [mk_term ''commented'' ''alice''] None example_three
       = Inr (Inr False, [])
   \<and> get_prop example_five ''comments''
       = Inr (JArr [JObj [(''user'', JObj [(''login'', JStr ''Alice99'')])],
                    JObj [(''user'', JNull)]])
   \<and> apply_search example_env [mk_term ''commented'' ''alice''] None example_five
       = Inr (Inr True, [])
   \<and> (\<exists>pre c post.
         [JObj [(''user'', JObj [(''login'', JStr ''Alice99'')])], JObj [(''user'', JNull)]]
           = pre @ c # post
         \<and> (\<forall>c' \<in> set pre. \<exists>l. comment_login c' = Inr (JStr l))
         \<and> (\<exists>l. comment_login c = Inr (JStr l)
               \<and> startsWith (toLowerCase l) (toLowerCase ''alice'')))
   \<and> apply_search example_env [mk_term ''commented'' ''bob''] None
        (JObj [(''comments'', JArr [JObj [(''user'', JObj [(''login'', JStr ''Alice99'')])]])])
       = Inr (Inr False, [])
   \<and> apply_search example_env [mk_term ''commented'' ''@me''] (Some \<lparr>login = ''ALICE''\<rparr>)
        (JObj [(''comments'', JArr [JObj [(''user'', JObj [(''login'', JStr ''Alice99'')])]])])
       = Inr (Inr True, [])"
proof -
  let ?a = "JObj [(''user'', JObj [(''login'', JStr ''Alice99'')])]"
  let ?n = "JObj [(''user'', JNull)]"
  let ?r = "JObj [(''comments'', JArr [?a])]"
  have t: "qualifier (mk_term ''commented'' x) = ''commented''"
    "tvalue (mk_term ''commented'' x) = Some x" "\<not> negated (mk_term ''commented'' x)" for x
    by (simp_all add: mk_term_def)
  have n: "''alice'' \<noteq> []" "''bob'' \<noteq> []" "''@me'' \<noteq> []" "''ALICE'' \<noteq> []"
    and s: "substituted None ''alice'' = Some ''alice''" "substituted None ''bob'' = Some ''bob''"
      "substituted (Some \<lparr>login = ''ALICE''\<rparr>) ''@me'' = Some ''ALICE''"
    by (simp_all add: substituted_def)
  have g: "get_prop example_three ''comments'' = Inr JUndefined"
    "get_prop example_five ''comments'' = Inr (JArr [?a, ?n])"
    "get_prop ?r ''comments'' = Inr (JArr [?a])"
    by (simp_all add: example_three_def example_five_def)
  have l: "comment_login ?a = Inr (JStr ''Alice99'')"
    by (simp add: comment_login_def)
  have sw: "startsWith (toLowerCase ''Alice99'') (toLowerCase ''alice'')"
    "\<not> startsWith (toLowerCase ''Alice99'') (toLowerCase ''bob'')"
    "startsWith (toLowerCase ''Alice99'') (toLowerCase ''ALICE'')"
    by (simp_all add: toLowerCase_def toLowerCase_char_def)
  note wa = commented_filter [OF t(1,2) n(1) s(1) n(1) t(3), of _ example_env]
  note wb = commented_filter [OF t(1,2) n(2) s(2) n(2) t(3), of _ example_env]
  note wm = commented_filter [OF t(1,2) n(3) s(3) n(4) t(3), of _ example_env]
  from wa [of example_three] g
  have 1: "apply_search example_env [mk_term ''commented'' ''alice''] None example_three
       = Inr (Inr False, [])"
    by simp
  have 2: "apply_search example_env [mk_term ''commented'' ''alice''] None example_five
       = Inr (Inr True, [])"
    by (simp add: compile_defs commentedFilter_def fuzzyMatches_def toLowerCase_method_def
        toLowerCase_def toLowerCase_char_def example_five_def)
  from wa [of example_five] g(2)
  have "\<exists>log. apply_search example_env [mk_term ''commented'' ''alice''] None example_five
      = Inr (Inr (\<exists>pre c post. [?a, ?n] = pre @ c # post
                   \<and> (\<forall>c' \<in> set pre. \<exists>l. comment_login c' = Inr (JStr l))
                   \<and> (\<exists>l. comment_login c = Inr (JStr l)
                         \<and> startsWith (toLowerCase l) (toLowerCase ''alice''))), log)"
    by blast
  with 2 have 3: "\<exists>pre c post. [?a, ?n] = pre @ c # post
                   \<and> (\<forall>c' \<in> set pre. \<exists>l. comment_login c' = Inr (JStr l))
                   \<and> (\<exists>l. comment_login c = Inr (JStr l)
                         \<and> startsWith (toLowerCase l) (toLowerCase ''alice''))"
    by simp
  from wb [of ?r] g(3) l sw
  have 4: "apply_search example_env [mk_term ''commented'' ''bob''] None ?r = Inr (Inr False, [])"
    by simp
  from wm [of ?r] g(3) l sw
  have 5: "apply_search example_env [mk_term ''commented'' ''@me''] (Some \<lparr>login = ''ALICE''\<rparr>) ?r
      = Inr (Inr True, [])"
    by simp
  from g 1 2 3 4 5 show ?thesis by simp
qed

text \<open>
  The claim as stated fails when a comment without a user comes before the comment by
  \<^verbatim>\<open>alice\<close>: \<^verbatim>\<open>comment.user.login\<close> throws, the exception is caught and the record does
  not match. It also fails for a negated term and for an empty value, which return
  \<^verbatim>\<open>true\<close> on a record without comments, and for \<^verbatim>\<open>@me\<close> without a current user.
\<close>

theorem commented_counterexample:
  "get_prop example_seven ''comments''
     = Inr (JArr [JObj [(''user'', JNull)],
                  JObj [(''user'', JObj [(''login'', JStr ''alice'')])]])
   \<and> comment_login (JObj [(''user'', JObj [(''login'', JStr ''alice'')])]) = Inr (JStr ''alice'')
   \<and> startsWith (toLowerCase ''alice'') (toLowerCase ''alice'')
   \<and> apply_search example_env [mk_term ''commented'' ''alice''] None example_seven
       = Inr (Inr False, [(''ORG/REPO#7'', TypeError)])
   \<and> get_prop example_three ''comments'' = Inr JUndefined
   \<and> apply_search example_env [mk_negated ''commented'' ''alice''] None example_three
       = Inr (Inr True, [])
   \<and> apply_search example_env [mk_term ''commented'' []] None example_three
       = Inr (Inr True, [])
   \<and> startsWith (toLowerCase ''@me'') (toLowerCase ''@me'')
   \<and> apply_search example_env [mk_term ''commented'' ''@me''] None
        (JObj [(''comments'', JArr [JObj [(''user'', JObj [(''login'', JStr ''@me'')])]])])
       = Inr (Inr False, [])"
  by (simp add: compile_defs commentedFilter_def fuzzyMatches_def toLowerCase_method_def
      toLowerCase_def toLowerCase_char_def comment_login_def negate_def filterNoop_def
      filterReject_def example_defs)

text \<open>
  Lower case covers the capital letters of the Latin-1 supplement, and leaves the signs
  there alone.
\<close>

lemma lower_case_latin1:
  "toLowerCase [CHR 0xC9, CHR ''C'', CHR 0xD7, CHR 0xDF] = [CHR 0xE9, CHR ''c'', CHR 0xD7, CHR 0xDF]"
  by (simp add: toLowerCase_def toLowerCase_char_def)

end
